theory Spec2Isabelle
  imports Complex_Main "HOL-Library.Word" "HOL-Library.Char_ord" "HOL-Library.List_Lexorder"
    "HOL-Library.Product_Lexorder" "HOL-Library.AList" "HOL-Library.Multiset"
begin

unbundle bit_operations_syntax

section \<open>Values and dictionaries\<close>

text \<open>
  A Python \<^verbatim>\<open>float\<close>: a finite float is the real number it denotes (the program only
  stores, negates and compares floats, which is exact); the other floats are the two
  infinities and NaN, which \<^verbatim>\<open>json.dumps\<close> writes and \<^verbatim>\<open>json.loads\<close> reads back.
\<close>

datatype pyfloat = Finite real | PosInf | NegInf | NaN

text \<open>
  The values that \<^verbatim>\<open>json.dumps\<close> accepts and \<^verbatim>\<open>json.loads\<close> returns. A Python
  \<^verbatim>\<open>int\<close> is an \<open>int\<close>; a \<^verbatim>\<open>str\<close> is a \<open>string\<close> whose characters are the code points
  below 256. A \<^verbatim>\<open>dict\<close> with string keys is an association list in insertion order, with
  distinct keys.
\<close>

datatype json =
    JNull
  | JBool bool
  | JInt int
  | JFloat pyfloat
  | JStr string
  | JList "json list"
  | JObj "(string \<times> json) list"

type_synonym dict = "(string \<times> json) list"

datatype error =
    KeyError
  | TypeError
  | ValueError
  | NameError
  | FileNotFoundError
  | ExternalError string

text \<open>\<^verbatim>\<open>d[k]\<close>, \<^verbatim>\<open>d[k] = v\<close>, \<^verbatim>\<open>del d[k]\<close> and \<^verbatim>\<open>d.update(h)\<close>.\<close>

definition getitem :: "dict \<Rightarrow> string \<Rightarrow> error + json" where
  "getitem d k = (case map_of d k of None \<Rightarrow> Inl KeyError | Some v \<Rightarrow> Inr v)"

definition setitem :: "dict \<Rightarrow> string \<Rightarrow> json \<Rightarrow> dict" where
  "setitem d k v = AList.update k v d"

definition delitem :: "dict \<Rightarrow> string \<Rightarrow> error + dict" where
  "delitem d k = (case map_of d k of None \<Rightarrow> Inl KeyError | Some _ \<Rightarrow> Inr (AList.delete k d))"

definition dict_update :: "dict \<Rightarrow> dict \<Rightarrow> dict" where
  "dict_update d h = fold (\<lambda>(k, v) acc. setitem acc k v) h d"

section \<open>Serialisation: \<^verbatim>\<open>json.dumps\<close>\<close>

function digits :: "nat \<Rightarrow> string" where
  "digits n = (if n < 10 then [char_of (48 + n)] else digits (n div 10) @ [char_of (48 + n mod 10)])"
  by pat_completeness auto
termination
  by (relation "measure id") auto

declare digits.simps [simp del]

definition str_int :: "int \<Rightarrow> string" where
  "str_int i = (if i < 0 then CHR ''-'' # digits (nat (- i)) else digits (nat i))"

definition hex_digit :: "nat \<Rightarrow> char" where
  "hex_digit n = ''0123456789abcdef'' ! n"

definition hex_byte :: "nat \<Rightarrow> string" where
  "hex_byte b = [hex_digit (b div 16), hex_digit (b mod 16)]"

text \<open>The encoder's string escaping with \<^verbatim>\<open>ensure_ascii=True\<close> (the default).\<close>

definition escape_char :: "char \<Rightarrow> string" where
  "escape_char c =
     (if c = CHR 0x22 then [CHR 0x5C, CHR 0x22]
      else if c = CHR 0x5C then [CHR 0x5C, CHR 0x5C]
      else if c = CHR 0x0A then [CHR 0x5C, CHR ''n'']
      else if c = CHR 0x0D then [CHR 0x5C, CHR ''r'']
      else if c = CHR 0x09 then [CHR 0x5C, CHR ''t'']
      else if c = CHR 0x08 then [CHR 0x5C, CHR ''b'']
      else if c = CHR 0x0C then [CHR 0x5C, CHR ''f'']
      else if (of_char c :: nat) < 32 \<or> 126 < (of_char c :: nat)
        then [CHR 0x5C, CHR ''u'', CHR ''0'', CHR ''0''] @ hex_byte (of_char c)
      else [c])"

definition encode_str :: "string \<Rightarrow> string" where
  "encode_str s = [CHR 0x22] @ concat (map escape_char s) @ [CHR 0x22]"

fun join :: "string \<Rightarrow> string list \<Rightarrow> string" where
  "join sep [] = []"
| "join sep [x] = x"
| "join sep (x # y # ys) = x @ sep @ join sep (y # ys)"

text \<open>
  \<open>dumps fr sk x\<close> is \<^verbatim>\<open>json.dumps(x, sort_keys=sk)\<close>. The text of a finite float is
  the interpreter's \<^verbatim>\<open>float.__repr__\<close>, taken as the parameter \<open>fr\<close>.
\<close>

fun float_text :: "(real \<Rightarrow> string) \<Rightarrow> pyfloat \<Rightarrow> string" where
  "float_text fr (Finite r) = fr r"
| "float_text fr PosInf = ''Infinity''"
| "float_text fr NegInf = ''-Infinity''"
| "float_text fr NaN = ''NaN''"

function dumps :: "(real \<Rightarrow> string) \<Rightarrow> bool \<Rightarrow> json \<Rightarrow> string" where
  "dumps fr sk JNull = ''null''"
| "dumps fr sk (JBool b) = (if b then ''true'' else ''false'')"
| "dumps fr sk (JInt i) = str_int i"
| "dumps fr sk (JFloat f) = float_text fr f"
| "dumps fr sk (JStr s) = encode_str s"
| "dumps fr sk (JList xs) = ''['' @ join '', '' (map (dumps fr sk) xs) @ '']''"
| "dumps fr sk (JObj kvs) =
     ''{'' @ join '', ''
       (map (\<lambda>kv. encode_str (fst kv) @ '': '' @ dumps fr sk (snd kv))
            (if sk then sort_key fst kvs else kvs)) @ ''}''"
  by pat_completeness auto
termination
proof (relation "measure (\<lambda>(fr, sk, x). size x)")
  fix fr :: "real \<Rightarrow> string" and sk :: bool and kvs :: "(string \<times> json) list" and kv
  assume "kv \<in> set (if sk then sort_key fst kvs else kvs)"
  then have "kv \<in> set kvs" by (simp split: if_splits)
  then have "size (snd kv) < Suc (size_list (size_prod (\<lambda>_. 0) size) kvs)"
    by (induction kvs) (auto simp: less_Suc_eq_le)
  then show "((fr, sk, snd kv), (fr, sk, JObj kvs)) \<in> measure (\<lambda>(fr, sk, x). size x)"
    by simp
qed (auto simp: less_Suc_eq_le size_list_estimation')

section \<open>Digest: \<^verbatim>\<open>hashlib.md5\<close>\<close>

text \<open>The MD5 message digest (RFC 1321) on a list of bytes, with 32-bit words.\<close>

definition md5_s :: "nat list" where
  "md5_s = [7, 12, 17, 22, 7, 12, 17, 22, 7, 12, 17, 22, 7, 12, 17, 22,
            5, 9, 14, 20, 5, 9, 14, 20, 5, 9, 14, 20, 5, 9, 14, 20,
            4, 11, 16, 23, 4, 11, 16, 23, 4, 11, 16, 23, 4, 11, 16, 23,
            6, 10, 15, 21, 6, 10, 15, 21, 6, 10, 15, 21, 6, 10, 15, 21]"

definition md5_K :: "32 word list" where
  "md5_K =
    [3614090360, 3905402710, 606105819, 3250441966,
     4118548399, 1200080426, 2821735955, 4249261313,
     1770035416, 2336552879, 4294925233, 2304563134,
     1804603682, 4254626195, 2792965006, 1236535329,
     4129170786, 3225465664, 643717713, 3921069994,
     3593408605, 38016083, 3634488961, 3889429448,
     568446438, 3275163606, 4107603335, 1163531501,
     2850285829, 4243563512, 1735328473, 2368359562,
     4294588738, 2272392833, 1839030562, 4259657740,
     2763975236, 1272893353, 4139469664, 3200236656,
     681279174, 3936430074, 3572445317, 76029189,
     3654602809, 3873151461, 530742520, 3299628645,
     4096336452, 1126891415, 2878612391, 4237533241,
     1700485571, 2399980690, 4293915773, 2240044497,
     1873313359, 4264355552, 2734768916, 1309151649,
     4149444226, 3174756917, 718787259, 3951481745]"

definition leftrotate :: "32 word \<Rightarrow> nat \<Rightarrow> 32 word" where
  "leftrotate x c = push_bit c x OR drop_bit (32 - c) x"

type_synonym md5_state = "32 word \<times> 32 word \<times> 32 word \<times> 32 word"

definition md5_F :: "nat \<Rightarrow> 32 word \<Rightarrow> 32 word \<Rightarrow> 32 word \<Rightarrow> 32 word" where
  "md5_F i B C D =
     (if i < 16 then (B AND C) OR (NOT B AND D)
      else if i < 32 then (D AND B) OR (NOT D AND C)
      else if i < 48 then B XOR C XOR D
      else C XOR (B OR NOT D))"

definition md5_g :: "nat \<Rightarrow> nat" where
  "md5_g i =
     (if i < 16 then i
      else if i < 32 then (5 * i + 1) mod 16
      else if i < 48 then (3 * i + 5) mod 16
      else (7 * i) mod 16)"

fun md5_step :: "32 word list \<Rightarrow> nat \<Rightarrow> md5_state \<Rightarrow> md5_state" where
  "md5_step M i (A, B, C, D) =
     (D, B + leftrotate (md5_F i B C D + A + md5_K ! i + M ! md5_g i) (md5_s ! i), B, C)"

fun le_word :: "nat list \<Rightarrow> 32 word" where
  "le_word [] = 0"
| "le_word (b # bs) = of_nat b + push_bit 8 (le_word bs)"

fun chunk_words :: "nat list \<Rightarrow> 32 word list" where
  "chunk_words [] = []"
| "chunk_words (b # bs) = le_word (take 4 (b # bs)) # chunk_words (drop 3 bs)"

fun md5_add :: "md5_state \<Rightarrow> md5_state \<Rightarrow> md5_state" where
  "md5_add (a0, b0, c0, d0) (A, B, C, D) = (a0 + A, b0 + B, c0 + C, d0 + D)"

definition md5_block :: "md5_state \<Rightarrow> nat list \<Rightarrow> md5_state" where
  "md5_block st blk = md5_add st (fold (md5_step (chunk_words blk)) [0..<64] st)"

fun md5_blocks :: "md5_state \<Rightarrow> nat list \<Rightarrow> md5_state" where
  "md5_blocks st [] = st"
| "md5_blocks st (b # bs) = md5_blocks (md5_block st (take 64 (b # bs))) (drop 63 bs)"

fun le_bytes :: "nat \<Rightarrow> nat \<Rightarrow> nat list" where
  "le_bytes 0 x = []"
| "le_bytes (Suc n) x = (x mod 256) # le_bytes n (x div 256)"

definition md5_pad :: "nat list \<Rightarrow> nat list" where
  "md5_pad bs = bs @ [128] @ replicate ((119 - length bs mod 64) mod 64) 0
                  @ le_bytes 8 ((8 * length bs) mod 2 ^ 64)"

fun md5_hex :: "md5_state \<Rightarrow> string" where
  "md5_hex (a, b, c, d) =
     concat (map hex_byte (concat (map (\<lambda>w. le_bytes 4 (unat w)) [a, b, c, d])))"

definition md5_init :: md5_state where
  "md5_init = (0x67452301, 0xefcdab89, 0x98badcfe, 0x10325476)"

definition md5_hexdigest :: "nat list \<Rightarrow> string" where
  "md5_hexdigest bs = md5_hex (md5_blocks md5_init (md5_pad bs))"

text \<open>\<^verbatim>\<open>s.encode('utf-8')\<close> on the encoder's output, which is ASCII.\<close>

definition encode_utf8 :: "string \<Rightarrow> nat list" where
  "encode_utf8 s = map of_char s"

section \<open>The result store (class \<^verbatim>\<open>Results\<close>)\<close>

text \<open>
  The file system maps a file name to the lines of the file. A line is held as the
  dictionary that \<^verbatim>\<open>json.loads\<close> returns for it, and \<^verbatim>\<open>save\<close> appends the dictionary it
  hands to \<^verbatim>\<open>json.dumps\<close>: on the values above \<^verbatim>\<open>json.loads\<close> inverts \<^verbatim>\<open>json.dumps\<close>.
\<close>

type_synonym filesystem = "string \<rightharpoonup> dict list"

fun map_err :: "('a \<Rightarrow> error + 'b) \<Rightarrow> 'a list \<Rightarrow> error + 'b list" where
  "map_err f [] = Inr []"
| "map_err f (x # xs) =
     (case f x of
        Inl e \<Rightarrow> Inl e
      | Inr y \<Rightarrow> (case map_err f xs of Inl e \<Rightarrow> Inl e | Inr ys \<Rightarrow> Inr (y # ys)))"

definition read_lines :: "string \<Rightarrow> filesystem \<Rightarrow> error + dict list" where
  "read_lines fn fs = (case fs fn of None \<Rightarrow> Inl FileNotFoundError | Some ls \<Rightarrow> Inr ls)"

definition append_line :: "string \<Rightarrow> dict \<Rightarrow> filesystem \<Rightarrow> filesystem" where
  "append_line fn d fs = fs(fn \<mapsto> (case fs fn of None \<Rightarrow> [] | Some ls \<Rightarrow> ls) @ [d])"

text \<open>\<^verbatim>\<open>Results.__init__\<close>: \<^verbatim>\<open>open(filename, 'a+')\<close> creates the file when it is missing.\<close>

definition Results_init :: "string \<Rightarrow> filesystem \<Rightarrow> filesystem" where
  "Results_init fn fs = (case fs fn of None \<Rightarrow> fs(fn \<mapsto> []) | Some _ \<Rightarrow> fs)"

text \<open>\<^verbatim>\<open>Results._hash\<close>.\<close>

definition Results_hash :: "(real \<Rightarrow> string) \<Rightarrow> dict \<Rightarrow> string" where
  "Results_hash fr x = md5_hexdigest (encode_utf8 (dumps fr True (JObj x)))"

text \<open>\<^verbatim>\<open>Results.save\<close>.\<close>

definition save_record :: "(real \<Rightarrow> string) \<Rightarrow> dict \<Rightarrow> json \<Rightarrow> json \<Rightarrow> dict" where
  "save_record fr hyperparams test_mrr validation_mrr =
     dict_update [(''test_mrr'', test_mrr),
                  (''validation_mrr'', validation_mrr),
                  (''hash'', JStr (Results_hash fr hyperparams))] hyperparams"

definition Results_save ::
  "(real \<Rightarrow> string) \<Rightarrow> string \<Rightarrow> dict \<Rightarrow> json \<Rightarrow> json \<Rightarrow> filesystem \<Rightarrow> filesystem" where
  "Results_save fr fn hyperparams test_mrr validation_mrr fs =
     append_line fn (save_record fr hyperparams test_mrr validation_mrr) fs"

text \<open>\<^verbatim>\<open>Results.__getitem__\<close>: the first line whose \<^verbatim>\<open>hash\<close> is the fingerprint.\<close>

fun scan_lines :: "string \<Rightarrow> dict list \<Rightarrow> error + dict" where
  "scan_lines params_hash [] = Inl KeyError"
| "scan_lines params_hash (datum # rest) =
     (case getitem datum ''hash'' of
        Inl e \<Rightarrow> Inl e
      | Inr v \<Rightarrow>
          if v = JStr params_hash then delitem datum ''hash''
          else scan_lines params_hash rest)"

definition Results_getitem ::
  "(real \<Rightarrow> string) \<Rightarrow> string \<Rightarrow> dict \<Rightarrow> filesystem \<Rightarrow> error + dict" where
  "Results_getitem fr fn hyperparams fs =
     (case read_lines fn fs of
        Inl e \<Rightarrow> Inl e
      | Inr ls \<Rightarrow> scan_lines (Results_hash fr hyperparams) ls)"

text \<open>\<^verbatim>\<open>Results.__contains__\<close>: only \<^verbatim>\<open>KeyError\<close> is caught.\<close>

definition Results_contains ::
  "(real \<Rightarrow> string) \<Rightarrow> string \<Rightarrow> dict \<Rightarrow> filesystem \<Rightarrow> error + bool" where
  "Results_contains fr fn x fs =
     (case Results_getitem fr fn x fs of
        Inr _ \<Rightarrow> Inr True
      | Inl KeyError \<Rightarrow> Inr False
      | Inl e \<Rightarrow> Inl e)"

text \<open>\<^verbatim>\<open>Results.__iter__\<close>, consumed to its end.\<close>

definition Results_iter :: "string \<Rightarrow> filesystem \<Rightarrow> error + dict list" where
  "Results_iter fn fs =
     (case read_lines fn fs of
        Inl e \<Rightarrow> Inl e
      | Inr ls \<Rightarrow> map_err (\<lambda>datum. delitem datum ''hash'') ls)"

text \<open>Unary minus: defined on numbers (a \<^verbatim>\<open>bool\<close> is an \<^verbatim>\<open>int\<close>).\<close>

fun float_neg :: "pyfloat \<Rightarrow> pyfloat" where
  "float_neg (Finite r) = Finite (- r)"
| "float_neg PosInf = NegInf"
| "float_neg NegInf = PosInf"
| "float_neg NaN = NaN"

fun py_neg :: "json \<Rightarrow> error + pyfloat" where
  "py_neg (JInt i) = Inr (Finite (- of_int i))"
| "py_neg (JFloat f) = Inr (float_neg f)"
| "py_neg (JBool b) = Inr (Finite (- (if b then 1 else 0)))"
| "py_neg _ = Inl TypeError"

definition neg_test_mrr :: "dict \<Rightarrow> error + pyfloat" where
  "neg_test_mrr x = (case getitem x ''test_mrr'' of Inl e \<Rightarrow> Inl e | Inr v \<Rightarrow> py_neg v)"

text \<open>
  The order of numbers: \<open>rank\<close> places the numbers other than NaN on a line, and \<open>a < b\<close>
  is false when either side is NaN.
\<close>

fun rank :: "pyfloat \<Rightarrow> int \<times> real" where
  "rank (Finite r) = (0, r)"
| "rank PosInf = (1, 0)"
| "rank NegInf = (- 1, 0)"
| "rank NaN = (0, 0)"

definition py_lt :: "pyfloat \<Rightarrow> pyfloat \<Rightarrow> bool" where
  "py_lt a b \<longleftrightarrow> a \<noteq> NaN \<and> b \<noteq> NaN \<and> rank a < rank b"

text \<open>No element is less than the one before it: the list is one ascending run.\<close>

fun one_run :: "pyfloat list \<Rightarrow> bool" where
  "one_run (a # b # ks) = (\<not> py_lt b a \<and> one_run (b # ks))"
| "one_run _ = True"

text \<open>
  \<^verbatim>\<open>sorted(xs, key=kf)\<close>: every key is computed first. When no key is NaN the keys are
  totally ordered and the result is the stable sort. With a NaN among the keys the
  result is what the interpreter's merge sort leaves: a list that is one ascending run is
  left as it is; for any other list the order is the interpreter's, taken as the
  parameter \<open>srt\<close>.
\<close>

definition py_sorted ::
  "((pyfloat \<times> 'a) list \<Rightarrow> (pyfloat \<times> 'a) list) \<Rightarrow> ('a \<Rightarrow> error + pyfloat) \<Rightarrow> 'a list
     \<Rightarrow> error + 'a list" where
  "py_sorted srt kf xs =
     (case map_err kf xs of
        Inl e \<Rightarrow> Inl e
      | Inr ks \<Rightarrow>
          Inr (map snd
                (if NaN \<notin> set ks then sort_key (\<lambda>p. rank (fst p)) (zip ks xs)
                 else if one_run ks then zip ks xs
                 else srt (zip ks xs))))"

text \<open>\<^verbatim>\<open>Results.best\<close>; \<open>None\<close> is Python's \<^verbatim>\<open>None\<close>.\<close>

definition Results_best ::
  "((pyfloat \<times> dict) list \<Rightarrow> (pyfloat \<times> dict) list) \<Rightarrow> string \<Rightarrow> filesystem
     \<Rightarrow> error + dict option" where
  "Results_best srt fn fs =
     (case Results_iter fn fs of
        Inl e \<Rightarrow> Inl e
      | Inr xs \<Rightarrow>
          (case py_sorted srt neg_test_mrr xs of
             Inl e \<Rightarrow> Inl e
           | Inr results \<Rightarrow> Inr (case results of [] \<Rightarrow> None | r # _ \<Rightarrow> Some r)))"

section \<open>External collaborators\<close>

text \<open>
  What the program imports and does not define: the interpreter's float arithmetic and
  list sort, scikit-learn's \<^verbatim>\<open>ParameterSampler\<close>, and the model library. \<open>'g\<close> is the state of a
  \<^verbatim>\<open>numpy.random.RandomState\<close>, \<open>'d\<close> a data set, \<open>'s\<close> an array of scores.
  \<open>ParameterSampler\<close> gives the sets the iterator yields and the state it leaves;
  \<open>fit_and_score\<close> stands for building \<^verbatim>\<open>ImplicitSequenceModel\<close>, \<^verbatim>\<open>model.fit\<close> and the two
  calls of \<^verbatim>\<open>sequence_mrr_score\<close>.
\<close>

datatype representation = CNNNet "json list" | Named string

record ('g, 'd, 's) ext =
  float_repr :: "real \<Rightarrow> string"
  float_pow :: "pyfloat \<Rightarrow> nat \<Rightarrow> pyfloat"
  list_sort :: "(pyfloat \<times> dict) list \<Rightarrow> (pyfloat \<times> dict) list"
  ParameterSampler :: "(string \<times> json list) list \<Rightarrow> nat \<Rightarrow> 'g \<Rightarrow> dict list \<times> 'g"
  fit_and_score ::
    "representation \<Rightarrow> json list \<Rightarrow> 'd \<Rightarrow> 'd \<Rightarrow> 'd \<Rightarrow> 'g \<Rightarrow> string option
       \<Rightarrow> (error + 's \<times> 's) \<times> 'g"
  mean :: "'s \<Rightarrow> pyfloat"

section \<open>Search spaces and samplers\<close>

definition NUM_SAMPLES :: nat where
  "NUM_SAMPLES = 100"

text \<open>A float literal stands for the float it denotes.\<close>

definition LEARNING_RATES :: "json list" where
  "LEARNING_RATES = map (\<lambda>r. JFloat (Finite r)) [1 / 1000, 1 / 100, 5 / 100, 1 / 10]"

definition LOSSES :: "json list" where
  "LOSSES = [JStr ''bpr'', JStr ''hinge'', JStr ''adaptive_hinge'', JStr ''pointwise'']"

definition BATCH_SIZE :: "json list" where
  "BATCH_SIZE = [JInt 256]"

definition EMBEDDING_DIM :: "json list" where
  "EMBEDDING_DIM = [JInt 8]"

definition N_ITER :: "json list" where
  "N_ITER = map (\<lambda>n. JInt (int n)) [5..<20]"

definition L2 :: "json list" where
  "L2 = map (\<lambda>r. JFloat (Finite r))
          [1 / 1000000, 1 / 100000, 1 / 10000, 1 / 1000, 1 / 100, 0]"

definition lstm_space :: "(string \<times> json list) list" where
  "lstm_space =
     [(''n_iter'', N_ITER), (''batch_size'', BATCH_SIZE), (''l2'', L2),
      (''learning_rate'', LEARNING_RATES), (''loss'', LOSSES),
      (''embedding_dim'', EMBEDDING_DIM)]"

definition pooling_space :: "(string \<times> json list) list" where
  "pooling_space =
     [(''n_iter'', N_ITER), (''batch_size'', BATCH_SIZE), (''l2'', L2),
      (''learning_rate'', LEARNING_RATES), (''loss'', LOSSES),
      (''embedding_dim'', EMBEDDING_DIM)]"

definition cnn_space :: "(string \<times> json list) list" where
  "cnn_space =
     [(''n_iter'', N_ITER), (''batch_size'', BATCH_SIZE), (''l2'', L2),
      (''learning_rate'', LEARNING_RATES), (''loss'', LOSSES),
      (''embedding_dim'', EMBEDDING_DIM),
      (''kernel_width'', [JInt 3, JInt 5, JInt 7]),
      (''num_layers'', map (\<lambda>n. JInt (int n)) [1..<10]),
      (''dilation_multiplier'', [JInt 1, JInt 2]),
      (''nonlinearity'', [JStr ''tanh'', JStr ''relu'']),
      (''residual'', [JBool True, JBool False])]"

text \<open>\<^verbatim>\<open>range(n)\<close> and \<^verbatim>\<open>b ** k\<close> for \<open>k \<ge> 0\<close>.\<close>

fun py_range :: "json \<Rightarrow> error + nat list" where
  "py_range (JInt n) = Inr [0..<nat n]"
| "py_range (JBool b) = Inr [0..<(if b then 1 else 0)]"
| "py_range _ = Inl TypeError"

fun py_pow :: "(pyfloat \<Rightarrow> nat \<Rightarrow> pyfloat) \<Rightarrow> json \<Rightarrow> nat \<Rightarrow> error + json" where
  "py_pow fp (JInt b) k = Inr (JInt (b ^ k))"
| "py_pow fp (JBool b) k = Inr (JInt ((if b then 1 else 0) ^ k))"
| "py_pow fp (JFloat r) k = Inr (JFloat (fp r k))"
| "py_pow fp _ k = Inl TypeError"

text \<open>The body of the loop of \<^verbatim>\<open>sample_cnn_hyperparameters\<close>.\<close>

definition add_dilation :: "(pyfloat \<Rightarrow> nat \<Rightarrow> pyfloat) \<Rightarrow> dict \<Rightarrow> error + dict" where
  "add_dilation fp params =
     (case getitem params ''num_layers'' of
        Inl e \<Rightarrow> Inl e
      | Inr num_layers \<Rightarrow>
          (case py_range num_layers of
             Inl e \<Rightarrow> Inl e
           | Inr is \<Rightarrow>
               (case map_err (\<lambda>i. case getitem params ''dilation_multiplier'' of
                                      Inl e \<Rightarrow> Inl e
                                    | Inr dm \<Rightarrow> py_pow fp dm (i mod 8)) is of
                  Inl e \<Rightarrow> Inl e
                | Inr ds \<Rightarrow> Inr (setitem params ''dilation'' (JList ds)))))"

text \<open>
  A generator is the list of the values it yields, and the exception that ends it, if
  one does.
\<close>

type_synonym 'a generator = "'a list \<times> error option"

fun gen_map :: "('a \<Rightarrow> error + 'b) \<Rightarrow> 'a list \<Rightarrow> 'b generator" where
  "gen_map f [] = ([], None)"
| "gen_map f (x # xs) =
     (case f x of
        Inl e \<Rightarrow> ([], Some e)
      | Inr y \<Rightarrow> (y # fst (gen_map f xs), snd (gen_map f xs)))"

definition sample_cnn_hyperparameters ::
  "('g, 'd, 's) ext \<Rightarrow> 'g \<Rightarrow> nat \<Rightarrow> dict generator \<times> 'g" where
  "sample_cnn_hyperparameters L random_state num =
     (case ParameterSampler L cnn_space num random_state of
        (sampler, g) \<Rightarrow> (gen_map (add_dilation (float_pow L)) sampler, g))"

definition sample_lstm_hyperparameters ::
  "('g, 'd, 's) ext \<Rightarrow> 'g \<Rightarrow> nat \<Rightarrow> dict generator \<times> 'g" where
  "sample_lstm_hyperparameters L random_state num =
     (case ParameterSampler L lstm_space num random_state of
        (sampler, g) \<Rightarrow> ((sampler, None), g))"

definition sample_pooling_hyperparameters ::
  "('g, 'd, 's) ext \<Rightarrow> 'g \<Rightarrow> nat \<Rightarrow> dict generator \<times> 'g" where
  "sample_pooling_hyperparameters L random_state num =
     (case ParameterSampler L pooling_space num random_state of
        (sampler, g) \<Rightarrow> ((sampler, None), g))"

section \<open>Evaluators\<close>

definition model_kwargs :: "dict \<Rightarrow> error + json list" where
  "model_kwargs h =
     map_err (getitem h) [''loss'', ''batch_size'', ''learning_rate'', ''l2'', ''n_iter'']"

definition evaluate_cnn_model ::
  "('g, 'd, 's) ext \<Rightarrow> dict \<Rightarrow> 'd \<Rightarrow> 'd \<Rightarrow> 'd \<Rightarrow> 'g \<Rightarrow> string option
     \<Rightarrow> (error + 's \<times> 's) \<times> 'g" where
  "evaluate_cnn_model L h train test validation random_state tb_log_dir =
     (case map_err (getitem h) [''embedding_dim'', ''kernel_width'', ''dilation'',
                                ''num_layers'', ''nonlinearity'', ''residual''] of
        Inl e \<Rightarrow> (Inl e, random_state)
      | Inr net \<Rightarrow>
          (case model_kwargs h of
             Inl e \<Rightarrow> (Inl e, random_state)
           | Inr kw \<Rightarrow>
               fit_and_score L (CNNNet net) kw train test validation random_state tb_log_dir))"

definition evaluate_lstm_model ::
  "('g, 'd, 's) ext \<Rightarrow> dict \<Rightarrow> 'd \<Rightarrow> 'd \<Rightarrow> 'd \<Rightarrow> 'g \<Rightarrow> string option
     \<Rightarrow> (error + 's \<times> 's) \<times> 'g" where
  "evaluate_lstm_model L h train test validation random_state tb_log_dir =
     (case model_kwargs h of
        Inl e \<Rightarrow> (Inl e, random_state)
      | Inr kw \<Rightarrow>
          fit_and_score L (Named ''lstm'') kw train test validation random_state tb_log_dir)"

definition evaluate_pooling_model ::
  "('g, 'd, 's) ext \<Rightarrow> dict \<Rightarrow> 'd \<Rightarrow> 'd \<Rightarrow> 'd \<Rightarrow> 'g \<Rightarrow> string option
     \<Rightarrow> (error + 's \<times> 's) \<times> 'g" where
  "evaluate_pooling_model L h train test validation random_state tb_log_dir =
     (case model_kwargs h of
        Inl e \<Rightarrow> (Inl e, random_state)
      | Inr kw \<Rightarrow>
          fit_and_score L (Named ''pooling'') kw train test validation random_state tb_log_dir)"

section \<open>The search driver\<close>

text \<open>
  What \<^verbatim>\<open>run\<close> reads and changes outside its arguments: the files, the module global
  \<^verbatim>\<open>random_state\<close> (unbound, or bound to a generator in some state) and, as a trace, what
  it prints and which collaborators it calls.
\<close>

datatype event =
    Print_best string "dict option"
  | Print_evaluating dict
  | Print_mrr pyfloat pyfloat
  | Sampler_called nat
  | Evaluator_called dict "string option"

record 'g world =
  files :: filesystem
  random_state :: "'g option"
  trace :: "event list"

datatype family = Pooling | Cnn | Lstm

fun eval_fnc ::
  "family \<Rightarrow> ('g, 'd, 's) ext \<Rightarrow> dict \<Rightarrow> 'd \<Rightarrow> 'd \<Rightarrow> 'd \<Rightarrow> 'g \<Rightarrow> string option
     \<Rightarrow> (error + 's \<times> 's) \<times> 'g" where
  "eval_fnc Pooling = evaluate_pooling_model"
| "eval_fnc Cnn = evaluate_cnn_model"
| "eval_fnc Lstm = evaluate_lstm_model"

fun sample_fnc :: "family \<Rightarrow> ('g, 'd, 's) ext \<Rightarrow> 'g \<Rightarrow> nat \<Rightarrow> dict generator \<times> 'g" where
  "sample_fnc Pooling = sample_pooling_hyperparameters"
| "sample_fnc Cnn = sample_cnn_hyperparameters"
| "sample_fnc Lstm = sample_lstm_hyperparameters"

definition dispatch :: "string \<Rightarrow> error + family" where
  "dispatch model_type =
     (if model_type = ''pooling'' then Inr Pooling
      else if model_type = ''cnn'' then Inr Cnn
      else if model_type = ''lstm'' then Inr Lstm
      else Inl ValueError)"

text \<open>\<^verbatim>\<open>os.path.join\<close> (POSIX); a first argument \<^verbatim>\<open>None\<close> is a \<^verbatim>\<open>TypeError\<close>.\<close>

definition join2 :: "string \<Rightarrow> string \<Rightarrow> string" where
  "join2 path b =
     (if b \<noteq> [] \<and> hd b = CHR ''/'' then b
      else if path = [] \<or> last path = CHR ''/'' then path @ b
      else path @ ''/'' @ b)"

definition os_path_join :: "string option \<Rightarrow> string list \<Rightarrow> error + string" where
  "os_path_join a p =
     (case a of None \<Rightarrow> Inl TypeError | Some a' \<Rightarrow> Inr (fold (\<lambda>b path. join2 path b) p a'))"

text \<open>\<^verbatim>\<open>"run_%3d" % cnt\<close>.\<close>

definition run_name :: "nat \<Rightarrow> string" where
  "run_name cnt = ''run_'' @ replicate (3 - length (digits cnt)) CHR '' '' @ digits cnt"

definition emit :: "event \<Rightarrow> 'g world \<Rightarrow> 'g world" where
  "emit ev w = w\<lparr>trace := trace w @ [ev]\<rparr>"

text \<open>The body of the loop of \<^verbatim>\<open>run\<close> for one candidate; \<open>fn\<close> is the file of \<^verbatim>\<open>results\<close>.\<close>

definition loop_body ::
  "('g, 'd, 's) ext \<Rightarrow> family \<Rightarrow> 'd \<Rightarrow> 'd \<Rightarrow> 'd \<Rightarrow> string \<Rightarrow> string option \<Rightarrow> string
     \<Rightarrow> nat \<times> dict \<Rightarrow> 'g world \<Rightarrow> (error + unit) \<times> 'g world" where
  "loop_body L fam train test validation model_type tb_log_dir fn item w =
     (case item of (cnt, hyperparameters) \<Rightarrow>
       (case Results_contains (float_repr L) fn hyperparameters (files w) of
          Inl e \<Rightarrow> (Inl e, w)
        | Inr True \<Rightarrow> (Inr (), w)
        | Inr False \<Rightarrow>
            (case os_path_join tb_log_dir [model_type, run_name cnt] of
               Inl e \<Rightarrow> (Inl e, emit (Print_evaluating hyperparameters) w)
             | Inr this_tb_log_dir \<Rightarrow>
                 (case random_state w of
                    None \<Rightarrow> (Inl NameError, emit (Print_evaluating hyperparameters) w)
                  | Some g \<Rightarrow>
                      (case eval_fnc fam L hyperparameters train test validation g
                              (Some this_tb_log_dir) of
                         (r, g') \<Rightarrow>
                           (let w1 = emit (Evaluator_called hyperparameters (Some this_tb_log_dir))
                                       (emit (Print_evaluating hyperparameters) w)
                                       \<lparr>random_state := Some g'\<rparr>
                            in case r of
                                 Inl e \<Rightarrow> (Inl e, w1)
                               | Inr (test_mrr, val_mrr) \<Rightarrow>
                                   (Inr (),
                                    emit (Print_mrr (mean L test_mrr) (mean L val_mrr)) w1
                                      \<lparr>files :=
                                         Results_save (float_repr L) fn hyperparameters
                                           (JFloat (mean L test_mrr)) (JFloat (mean L val_mrr))
                                           (files w1)\<rparr>)))))))"

fun run_loop ::
  "('g, 'd, 's) ext \<Rightarrow> family \<Rightarrow> 'd \<Rightarrow> 'd \<Rightarrow> 'd \<Rightarrow> string \<Rightarrow> string option \<Rightarrow> string
     \<Rightarrow> (nat \<times> dict) list \<Rightarrow> 'g world \<Rightarrow> (error + unit) \<times> 'g world" where
  "run_loop L fam train test validation model_type tb_log_dir fn [] w = (Inr (), w)"
| "run_loop L fam train test validation model_type tb_log_dir fn (item # items) w =
     (case loop_body L fam train test validation model_type tb_log_dir fn item w of
        (Inl e, w') \<Rightarrow> (Inl e, w')
      | (Inr _, w') \<Rightarrow> run_loop L fam train test validation model_type tb_log_dir fn items w')"

text \<open>
  \<^verbatim>\<open>run\<close>. The parameter is spelled \<^verbatim>\<open>ranomd_state\<close> as in the source; the body reads the
  global \<^verbatim>\<open>random_state\<close>. The value returned is the \<^verbatim>\<open>Results\<close> object, that is, its file
  name.
\<close>

definition run ::
  "('g, 'd, 's) ext \<Rightarrow> 'd \<Rightarrow> 'd \<Rightarrow> 'd \<Rightarrow> 'r \<Rightarrow> string \<Rightarrow> string option \<Rightarrow> 'g world
     \<Rightarrow> (error + string) \<times> 'g world" where
  "run L train test validation ranomd_state model_type tb_log_dir w =
     (let fn = model_type @ ''_results.txt'';
          w0 = w\<lparr>files := Results_init fn (files w)\<rparr>
      in case Results_best (list_sort L) fn (files w0) of
           Inl e \<Rightarrow> (Inl e, w0)
         | Inr best_result \<Rightarrow>
             (case dispatch model_type of
                Inl e \<Rightarrow> (Inl e, w0)
              | Inr fam \<Rightarrow>
                  (case (if best_result \<noteq> None
                         then (case Results_best (list_sort L) fn (files w0) of
                                 Inl e \<Rightarrow> Inl e
                               | Inr b \<Rightarrow> Inr (emit (Print_best model_type b) w0))
                         else Inr w0) of
                     Inl e \<Rightarrow> (Inl e, w0)
                   | Inr w1 \<Rightarrow>
                       (case random_state w1 of
                          None \<Rightarrow> (Inl NameError, w1)
                        | Some g \<Rightarrow>
                            (case sample_fnc fam L g NUM_SAMPLES of
                               ((items, ending), g') \<Rightarrow>
                                 (case run_loop L fam train test validation model_type
                                         tb_log_dir fn (enumerate 0 items)
                                         (emit (Sampler_called NUM_SAMPLES) w1
                                            \<lparr>random_state := Some g'\<rparr>) of
                                    (Inl e, w2) \<Rightarrow> (Inl e, w2)
                                  | (Inr _, w2) \<Rightarrow>
                                      (case ending of
                                         Some e \<Rightarrow> (Inl e, w2)
                                       | None \<Rightarrow> (Inr fn, w2))))))))"

section \<open>Notions used in the statements\<close>

text \<open>The number a JSON value denotes, and the test score of a stored record.\<close>

fun num_val :: "json \<Rightarrow> pyfloat option" where
  "num_val (JInt i) = Some (Finite (of_int i))"
| "num_val (JFloat f) = Some f"
| "num_val (JBool b) = Some (Finite (if b then 1 else 0))"
| "num_val _ = None"

definition score :: "dict \<Rightarrow> pyfloat option" where
  "score d = (case map_of d ''test_mrr'' of None \<Rightarrow> None | Some v \<Rightarrow> num_val v)"

text \<open>A trial record carries a fingerprint and a numeric test score.\<close>

definition trial_record :: "dict \<Rightarrow> bool" where
  "trial_record d \<longleftrightarrow> map_of d ''hash'' \<noteq> None \<and> score d \<noteq> None"


text \<open>
  Collaborators for the worked examples: a sampler that yields the first sets of a given
  list, and an evaluator that returns fixed scores.
\<close>

definition demo_repr :: "real \<Rightarrow> string" where
  "demo_repr r = (if r = 1 / 2 then ''0.5'' else if r = 2 / 5 then ''0.4'' else ''0.1'')"

definition demo_ext :: "dict list \<Rightarrow> (nat, unit, real list) ext" where
  "demo_ext ps =
     \<lparr>float_repr = demo_repr,
      float_pow = (\<lambda>f k. case f of Finite r \<Rightarrow> Finite (r ^ k) | _ \<Rightarrow> f),
      list_sort = (\<lambda>ps. ps),
      ParameterSampler = (\<lambda>space n g. (take n ps, Suc g)),
      fit_and_score = (\<lambda>rep kw train test validation g tb. (Inr ([1 / 2], [2 / 5]), Suc g)),
      mean = (\<lambda>xs. if xs = [] then NaN else Finite (sum_list xs / real (length xs)))\<rparr>"

definition demo_world :: "nat world" where
  "demo_world = \<lparr>files = Map.empty, random_state = Some 42, trace = []\<rparr>"

definition lstm_set :: dict where
  "lstm_set =
     [(''n_iter'', JInt 5), (''batch_size'', JInt 256), (''l2'', JFloat (Finite 0)),
      (''learning_rate'', JFloat (Finite (1 / 100))), (''loss'', JStr ''bpr''),
      (''embedding_dim'', JInt 8)]"

definition demo_records :: "dict list" where
  "demo_records =
     [[(''n_iter'', JInt 5), (''test_mrr'', JFloat (Finite (3 / 10))), (''hash'', JStr ''a'')],
      [(''n_iter'', JInt 6), (''test_mrr'', JFloat (Finite (9 / 10))), (''hash'', JStr ''b'')],
      [(''n_iter'', JInt 7), (''test_mrr'', JFloat (Finite (9 / 10))), (''hash'', JStr ''c'')],
      [(''n_iter'', JInt 8), (''test_mrr'', JFloat (Finite (5 / 10))), (''hash'', JStr ''d'')]]"

definition nan_records :: "dict list" where
  "nan_records =
     [[(''n_iter'', JInt 5), (''test_mrr'', JFloat (Finite (3 / 10))), (''hash'', JStr ''a'')],
      [(''n_iter'', JInt 6), (''test_mrr'', JFloat NaN), (''hash'', JStr ''b'')],
      [(''n_iter'', JInt 7), (''test_mrr'', JFloat (Finite (9 / 10))), (''hash'', JStr ''c'')]]"

text \<open>Every line of the store carries a \<^verbatim>\<open>hash\<close> field.\<close>

definition hashed_store :: "string \<Rightarrow> filesystem \<Rightarrow> bool" where
  "hashed_store fn fs \<longleftrightarrow> (\<forall>ls d. fs fn = Some ls \<longrightarrow> d \<in> set ls \<longrightarrow> map_of d ''hash'' \<noteq> None)"

section \<open>Fingerprints\<close>

lemma filter_key_singleton:
  "distinct (map fst xs) \<Longrightarrow> k \<in> set xs \<Longrightarrow> filter (\<lambda>p. fst k = fst p) xs = [k]"
proof (induction xs)
  case Nil
  then show ?case by simp
next
  case (Cons a xs)
  show ?case
  proof (cases "k = a")
    case True
    have "filter (\<lambda>p. fst a = fst p) xs = []"
      using Cons.prems(1) by (auto simp: filter_empty_conv)
    then show ?thesis using True by simp
  next
    case False
    then have k: "k \<in> set xs" using Cons.prems(2) by simp
    then have "fst k \<in> fst ` set xs" by (rule imageI)
    moreover have "fst a \<notin> fst ` set xs" using Cons.prems(1) by simp
    ultimately have "fst k \<noteq> fst a" by metis
    then show ?thesis using Cons.IH k Cons.prems(1) by simp
  qed
qed

lemma sort_key_unique:
  assumes "distinct (map fst x)" and "distinct (map fst y)" and "map_of x = map_of y"
  shows "sort_key fst x = sort_key fst y"
proof -
  have s: "set x = set y" using assms by (simp add: map_of_inject_set)
  have dx: "distinct x" and dy: "distinct y" using assms(1,2) by (simp_all add: distinct_map)
  have m: "mset y = mset x" using s dx dy by (simp add: set_eq_iff_mset_eq_distinct)
  have ds: "distinct (map fst (sort_key fst y))"
    using assms(2) by (metis distinct_map distinct_sort set_sort)
  show ?thesis
  proof (rule properties_for_sort_key)
    show "mset (sort_key fst y) = mset x" using m by simp
    show "sorted (map fst (sort_key fst y))" by simp
    fix k assume "k \<in> set (sort_key fst y)"
    then have ky: "k \<in> set y" by simp
    then have kx: "k \<in> set x" using s by simp
    show "filter (\<lambda>p. fst k = fst p) (sort_key fst y) = filter (\<lambda>p. fst k = fst p) x"
      using filter_key_singleton[OF ds] filter_key_singleton[OF assms(1) kx] ky by simp
  qed
qed

lemma hash_order_independent:
  "distinct (map fst x) \<Longrightarrow> distinct (map fst y) \<Longrightarrow> map_of x = map_of y
     \<Longrightarrow> Results_hash fr x = Results_hash fr y"
  using sort_key_unique[of x y] by (simp add: Results_hash_def)

lemma length_le_bytes: "length (le_bytes n x) = n"
  by (induction n arbitrary: x) auto

lemma le_bytes_range: "b \<in> set (le_bytes n x) \<Longrightarrow> b < 256"
  by (induction n arbitrary: x) auto

lemma hex_digit_range: "n < 16 \<Longrightarrow> hex_digit n \<in> set ''0123456789abcdef''"
  unfolding hex_digit_def by (rule nth_mem) simp

lemma hex_byte_range: "b < 256 \<Longrightarrow> set (hex_byte b) \<subseteq> set ''0123456789abcdef''"
  using hex_digit_range[of "b div 16"] hex_digit_range[of "b mod 16"]
  by (simp add: hex_byte_def less_mult_imp_div_less)

lemma md5_hexdigest_shape:
  "length (md5_hexdigest bs) = 32 \<and> set (md5_hexdigest bs) \<subseteq> set ''0123456789abcdef''"
proof -
  obtain a b c d where st: "md5_blocks md5_init (md5_pad bs) = (a, b, c, d)"
    by (metis prod_cases4)
  have len: "length (md5_hex (a, b, c, d)) = 32"
    by (simp add: length_concat length_le_bytes hex_byte_def comp_def sum_list_triv)
  have "set (concat (map hex_byte bytes)) \<subseteq> set ''0123456789abcdef''"
    if "\<forall>b\<in>set bytes. b < 256" for bytes
    using that hex_byte_range by (induction bytes) auto
  moreover have "\<forall>b\<in>set (concat (map (\<lambda>w. le_bytes 4 (unat w)) [a, b, c, d])). b < 256"
    using le_bytes_range by auto
  ultimately have "set (md5_hex (a, b, c, d)) \<subseteq> set ''0123456789abcdef''"
    unfolding md5_hex.simps by blast
  then show ?thesis using len by (simp add: md5_hexdigest_def st)
qed

section \<open>The loop of the driver\<close>

lemma hashed_store_lines:
  "hashed_store fn fs \<Longrightarrow>
     \<forall>d\<in>set (case fs fn of None \<Rightarrow> [] | Some ls \<Rightarrow> ls). map_of d ''hash'' \<noteq> None"
  by (cases "fs fn") (simp_all add: hashed_store_def)

lemma map_of_dict_update_other:
  "k \<notin> fst ` set h \<Longrightarrow> map_of (dict_update d h) k = map_of d k"
  unfolding dict_update_def setitem_def
  by (induction h arbitrary: d) (auto simp: update_conv')

lemma save_record_hash:
  "''hash'' \<notin> fst ` set h \<Longrightarrow>
     map_of (save_record fr h t v) ''hash'' = Some (JStr (Results_hash fr h))"
  by (simp add: save_record_def map_of_dict_update_other)

lemma scan_lines_append_hit:
  "scan_lines ph ls = Inr d \<Longrightarrow> scan_lines ph (ls @ ys) = Inr d"
  by (induction ls) (auto split: sum.splits if_splits)

lemma scan_lines_hashed:
  "\<forall>d\<in>set ls. map_of d ''hash'' \<noteq> None \<Longrightarrow> map_of r ''hash'' = Some (JStr ph)
     \<Longrightarrow> \<exists>d. scan_lines ph (ls @ [r]) = Inr d"
  by (induction ls) (auto simp: getitem_def delitem_def split: sum.splits option.splits)

lemma contains_True_iff:
  "Results_contains fr fn h fs = Inr True \<longleftrightarrow>
     (\<exists>ls d. fs fn = Some ls \<and> scan_lines (Results_hash fr h) ls = Inr d)"
  by (auto simp: Results_contains_def Results_getitem_def read_lines_def
      split: sum.splits option.splits error.splits)

lemma contains_after_save:
  assumes "hashed_store fn fs" and "''hash'' \<notin> fst ` set h"
  shows "Results_contains fr fn h (Results_save fr fn h t v fs) = Inr True"
proof -
  let ?old = "case fs fn of None \<Rightarrow> [] | Some ls \<Rightarrow> ls"
  have "\<forall>d\<in>set ?old. map_of d ''hash'' \<noteq> None"
    using assms(1) by (rule hashed_store_lines)
  then obtain d where
    "scan_lines (Results_hash fr h) (?old @ [save_record fr h t v]) = Inr d"
    using scan_lines_hashed save_record_hash[OF assms(2)] by blast
  then show ?thesis
    unfolding contains_True_iff by (simp add: Results_save_def append_line_def)
qed

lemma contains_mono_save:
  assumes "Results_contains fr fn h' fs = Inr True"
  shows "Results_contains fr fn h' (Results_save fr fn h t v fs) = Inr True"
proof -
  from assms obtain ls d where "fs fn = Some ls" "scan_lines (Results_hash fr h') ls = Inr d"
    unfolding contains_True_iff by blast
  then show ?thesis unfolding contains_True_iff
    by (simp add: Results_save_def append_line_def scan_lines_append_hit)
qed

lemma hashed_store_save:
  assumes "hashed_store fn fs" and "''hash'' \<notin> fst ` set h"
  shows "hashed_store fn (Results_save fr fn h t v fs)"
  using hashed_store_lines[OF assms(1)] save_record_hash[OF assms(2), of fr t v]
  by (cases "fs fn") (auto simp: hashed_store_def Results_save_def append_line_def)

lemma loop_body_skip:
  "Results_contains (float_repr L) fn h (files w) = Inr True \<Longrightarrow>
     loop_body L fam tr te va mt tb fn (cnt, h) w = (Inr (), w)"
  by (simp add: loop_body_def)

lemma loop_body_success:
  assumes "loop_body L fam tr te va mt tb fn (cnt, h) w = (Inr (), w')"
  shows "(Results_contains (float_repr L) fn h (files w) = Inr True \<and> w' = w) \<or>
         (\<exists>t v. files w' = Results_save (float_repr L) fn h t v (files w))"
  using assms
  apply (auto simp: loop_body_def emit_def Let_def
      split: sum.splits bool.splits option.splits prod.splits)
  apply (intro exI)
  apply (rule refl)
  done

lemma run_loop_contained:
  assumes "run_loop L fam tr te va mt tb fn items w = (Inr (), w1)"
    and "hashed_store fn (files w)"
    and "\<forall>item\<in>set items. ''hash'' \<notin> fst ` set (snd item)"
  shows "hashed_store fn (files w1) \<and>
         (\<forall>h'. Results_contains (float_repr L) fn h' (files w) = Inr True \<longrightarrow>
                Results_contains (float_repr L) fn h' (files w1) = Inr True) \<and>
         (\<forall>item\<in>set items. Results_contains (float_repr L) fn (snd item) (files w1) = Inr True)"
  using assms
proof (induction items arbitrary: w)
  case Nil
  then show ?case by simp
next
  case (Cons item items)
  obtain cnt h where item: "item = (cnt, h)" by (cases item)
  from Cons.prems(1) obtain w' where
    body: "loop_body L fam tr te va mt tb fn (cnt, h) w = (Inr (), w')" and
    rest: "run_loop L fam tr te va mt tb fn items w' = (Inr (), w1)"
    unfolding item by (auto split: prod.splits sum.splits)
  have nh: "''hash'' \<notin> fst ` set h" using Cons.prems(3) unfolding item by simp
  from loop_body_success[OF body] have step:
    "hashed_store fn (files w') \<and>
     (\<forall>h'. Results_contains (float_repr L) fn h' (files w) = Inr True \<longrightarrow>
            Results_contains (float_repr L) fn h' (files w') = Inr True) \<and>
     Results_contains (float_repr L) fn h (files w') = Inr True"
  proof
    assume "Results_contains (float_repr L) fn h (files w) = Inr True \<and> w' = w"
    then show ?thesis using Cons.prems(2) by simp
  next
    assume "\<exists>t v. files w' = Results_save (float_repr L) fn h t v (files w)"
    then obtain t v where "files w' = Results_save (float_repr L) fn h t v (files w)" by blast
    then show ?thesis
      using hashed_store_save[OF Cons.prems(2) nh] contains_after_save[OF Cons.prems(2) nh]
        contains_mono_save by metis
  qed
  have ih: "hashed_store fn (files w1) \<and>
         (\<forall>h'. Results_contains (float_repr L) fn h' (files w') = Inr True \<longrightarrow>
                Results_contains (float_repr L) fn h' (files w1) = Inr True) \<and>
         (\<forall>item\<in>set items. Results_contains (float_repr L) fn (snd item) (files w1) = Inr True)"
    using Cons.prems(3) step by (intro Cons.IH[OF rest]) auto
  show ?case using ih step unfolding item by auto
qed

lemma run_loop_skip_all:
  "\<forall>item\<in>set items. Results_contains (float_repr L) fn (snd item) (files w) = Inr True
     \<Longrightarrow> run_loop L fam tr te va mt tb fn items w = (Inr (), w)"
proof (induction items)
  case Nil
  then show ?case by simp
next
  case (Cons item items)
  obtain cnt h where item: "item = (cnt, h)" by (cases item)
  show ?case using Cons unfolding item by (simp add: loop_body_skip)
qed

text \<open>
Claim C1. A candidate that the store contains is skipped: the body of the loop returns
  at once and leaves the files, the generator state and the trace as they were, so
  nothing is evaluated and nothing is written. Consequently, when a pass over a sequence
  of candidates has completed, a second pass over the same sequence from the resulting
  state changes nothing. The lines of the store carry a \<^verbatim>\<open>hash\<close> field (as \<^verbatim>\<open>best\<close> requires
  before the loop is reached) and no candidate has a parameter named \<^verbatim>\<open>hash\<close> (none of
  the three search spaces has one).
\<close>

theorem known_candidates_skipped:
  "(Results_contains (float_repr L) fn h (files w) = Inr True \<longrightarrow>
      loop_body L fam tr te va mt tb fn (cnt, h) w = (Inr (), w)) \<and>
   (hashed_store fn (files w) \<longrightarrow>
    (\<forall>item\<in>set items. ''hash'' \<notin> fst ` set (snd item)) \<longrightarrow>
    run_loop L fam tr te va mt tb fn items w = (Inr (), w1) \<longrightarrow>
      run_loop L fam tr te va mt tb fn items w1 = (Inr (), w1))"
proof (intro conjI impI)
  assume "Results_contains (float_repr L) fn h (files w) = Inr True"
  then show "loop_body L fam tr te va mt tb fn (cnt, h) w = (Inr (), w)"
    by (rule loop_body_skip)
next
  assume a: "hashed_store fn (files w)"
    and b: "\<forall>item\<in>set items. ''hash'' \<notin> fst ` set (snd item)"
    and c: "run_loop L fam tr te va mt tb fn items w = (Inr (), w1)"
  have "\<forall>item\<in>set items.
      Results_contains (float_repr L) fn (snd item) (files w1) = Inr True"
    using run_loop_contained[OF c a b] by (elim conjE)
  then show "run_loop L fam tr te va mt tb fn items w1 = (Inr (), w1)"
    by (rule run_loop_skip_all)
qed

section \<open>Dictionaries and the store\<close>

lemma update_fresh: "k \<notin> fst ` set al \<Longrightarrow> AList.update k v al = al @ [(k, v)]"
  by (induction al) auto

lemma dict_update_fresh:
  "distinct (map fst h) \<Longrightarrow> fst ` set h \<inter> fst ` set d = {} \<Longrightarrow> dict_update d h = d @ h"
  unfolding dict_update_def setitem_def
proof (induction h arbitrary: d)
  case Nil
  then show ?case by simp
next
  case (Cons kv h)
  obtain k v where kv: "kv = (k, v)" by (cases kv)
  from Cons.prems have fresh: "k \<notin> fst ` set d" unfolding kv by auto
  have "fst ` set h \<inter> fst ` set (d @ [(k, v)]) = {}"
    using Cons.prems unfolding kv by auto
  moreover have "distinct (map fst h)" using Cons.prems by simp
  ultimately have "fold (\<lambda>(k, v). AList.update k v) h (d @ [(k, v)]) = (d @ [(k, v)]) @ h"
    by (intro Cons.IH)
  then show ?case unfolding kv by (simp add: update_fresh[OF fresh])
qed

lemma map_of_dict_update:
  "distinct (map fst h) \<Longrightarrow> map_of (dict_update d h) = map_of d ++ map_of h"
  unfolding dict_update_def setitem_def
proof (induction h arbitrary: d)
  case Nil
  then show ?case by simp
next
  case (Cons kv h)
  obtain k v where kv: "kv = (k, v)" by (cases kv)
  have notin: "map_of h k = None"
    using Cons.prems unfolding kv by (simp add: map_of_eq_None_iff)
  have step: "map_of (fold (\<lambda>(k, v). AList.update k v) h (AList.update k v d))
          = map_of (AList.update k v d) ++ map_of h"
    using Cons.prems by (intro Cons.IH) simp
  have "map_of (fold (\<lambda>(k, v). AList.update k v) (kv # h) d) x
          = (map_of d ++ map_of (kv # h)) x" for x
  proof (cases "x = k")
    case True
    then show ?thesis using notin unfolding kv
      by (simp add: step update_conv' map_add_def)
  next
    case False
    then show ?thesis unfolding kv
      by (simp add: step update_conv' map_add_def split: option.splits)
  qed
  then show ?case by (rule ext)
qed


lemma scan_lines_append_miss:
  "\<forall>d\<in>set ls. \<exists>x. map_of d ''hash'' = Some x \<and> x \<noteq> JStr ph
     \<Longrightarrow> scan_lines ph (ls @ [r]) = scan_lines ph [r]"
  by (induction ls) (auto simp: getitem_def)

lemma save_record_fresh:
  assumes "distinct (map fst h)"
    and "fst ` set h \<inter> {''test_mrr'', ''validation_mrr'', ''hash''} = {}"
  shows "save_record fr h t v =
           [(''test_mrr'', t), (''validation_mrr'', v), (''hash'', JStr (Results_hash fr h))] @ h"
  unfolding save_record_def using assms by (intro dict_update_fresh) auto

lemma delete_absent: "k \<notin> fst ` set h \<Longrightarrow> AList.delete k h = h"
  by (induction h) auto

lemma scan_lines_no_hit:
  "\<forall>l\<in>set ls. map_of l ''hash'' \<noteq> None \<Longrightarrow> \<forall>d. scan_lines ph ls \<noteq> Inr d
     \<Longrightarrow> \<forall>l\<in>set ls. \<exists>x. map_of l ''hash'' = Some x \<and> x \<noteq> JStr ph"
proof (induction ls)
  case Nil
  then show ?case by simp
next
  case (Cons l ls)
  from Cons.prems(1) obtain x where x: "map_of l ''hash'' = Some x" by auto
  have ne: "x \<noteq> JStr ph"
  proof
    assume "x = JStr ph"
    then have "scan_lines ph (l # ls) = Inr (AList.delete ''hash'' l)"
      using x by (simp add: getitem_def delitem_def)
    then show False using Cons.prems(2) by blast
  qed
  then have "scan_lines ph (l # ls) = scan_lines ph ls"
    using x by (simp add: getitem_def)
  then have "\<forall>d. scan_lines ph ls \<noteq> Inr d" using Cons.prems(2) by simp
  then show ?case using Cons.IH Cons.prems(1) x ne by simp
qed

lemma getitem_save_hit:
  assumes "Results_getitem fr fn h fs = Inr d"
  shows "Results_getitem fr fn h (Results_save fr fn h' t v fs) = Inr d"
proof -
  from assms obtain ls where "fs fn = Some ls" "scan_lines (Results_hash fr h) ls = Inr d"
    by (auto simp: Results_getitem_def read_lines_def split: option.splits)
  then show ?thesis
    by (simp add: Results_getitem_def read_lines_def Results_save_def append_line_def
        scan_lines_append_hit)
qed

lemma getitem_save_fresh:
  assumes "''hash'' \<notin> fst ` set h" and "hashed_store fn fs"
    and "\<forall>d. Results_getitem fr fn h fs \<noteq> Inr d"
  shows "Results_getitem fr fn h (Results_save fr fn h t v fs) =
           Inr (AList.delete ''hash'' (save_record fr h t v))"
proof -
  let ?old = "case fs fn of None \<Rightarrow> [] | Some ls \<Rightarrow> ls"
  let ?ph = "Results_hash fr h"
  have hashed: "\<forall>l\<in>set ?old. map_of l ''hash'' \<noteq> None"
    using assms(2) by (rule hashed_store_lines)
  have "\<forall>d. scan_lines ?ph ?old \<noteq> Inr d"
    using assms(3) by (cases "fs fn") (simp_all add: Results_getitem_def read_lines_def)
  with hashed have "\<forall>l\<in>set ?old. \<exists>x. map_of l ''hash'' = Some x \<and> x \<noteq> JStr ?ph"
    by (rule scan_lines_no_hit)
  then have "scan_lines ?ph (?old @ [save_record fr h t v]) =
               scan_lines ?ph [save_record fr h t v]"
    by (rule scan_lines_append_miss)
  also have "\<dots> = Inr (AList.delete ''hash'' (save_record fr h t v))"
    using save_record_hash[OF assms(1), of fr t v] by (simp add: getitem_def delitem_def)
  finally show ?thesis
    by (simp add: Results_getitem_def Results_save_def append_line_def read_lines_def)
qed

text \<open>
Claim C3, amended. Let \<open>h\<close> be a hyperparameter set with no parameter named
  \<^verbatim>\<open>hash\<close>, and let every line of the store carry a \<^verbatim>\<open>hash\<close> field. After
  \<^verbatim>\<open>save(h, t, v)\<close> the membership test on \<open>h\<close> is true, and it stays true when \<open>h\<close> is
  saved again. The lookup of \<open>h\<close> returns the first line with the fingerprint of \<open>h\<close>: an
  earlier line for \<open>h\<close> when the store had one, and otherwise the new record without its
  \<^verbatim>\<open>hash\<close> field, that is \<^verbatim>\<open>test_mrr = t\<close> and \<^verbatim>\<open>validation_mrr = v\<close> updated with the items
  of \<open>h\<close>; when \<open>h\<close> has no parameter named \<^verbatim>\<open>test_mrr\<close> or \<^verbatim>\<open>validation_mrr\<close> this is
  exactly the two scores followed by the items of \<open>h\<close>.
\<close>

theorem save_then_lookup:
  assumes "distinct (map fst h)" and "''hash'' \<notin> fst ` set h" and "hashed_store fn fs"
  shows "Results_contains fr fn h (Results_save fr fn h t v fs) = Inr True \<and>
         Results_contains fr fn h
           (Results_save fr fn h t' v' (Results_save fr fn h t v fs)) = Inr True \<and>
         (\<forall>d. Results_getitem fr fn h fs = Inr d \<longrightarrow>
            Results_getitem fr fn h (Results_save fr fn h t v fs) = Inr d) \<and>
         ((\<forall>d. Results_getitem fr fn h fs \<noteq> Inr d) \<longrightarrow>
            (\<exists>d. Results_getitem fr fn h (Results_save fr fn h t v fs) = Inr d \<and>
                 map_of d = [''test_mrr'' \<mapsto> t, ''validation_mrr'' \<mapsto> v] ++ map_of h) \<and>
            (fst ` set h \<inter> {''test_mrr'', ''validation_mrr''} = {} \<longrightarrow>
               Results_getitem fr fn h (Results_save fr fn h t v fs) =
                 Inr ([(''test_mrr'', t), (''validation_mrr'', v)] @ h)))"
proof -
  have c1: "Results_contains fr fn h (Results_save fr fn h t v fs) = Inr True"
    using assms(3,2) by (rule contains_after_save)
  have "hashed_store fn (Results_save fr fn h t v fs)"
    using assms(3,2) by (rule hashed_store_save)
  then have c2: "Results_contains fr fn h
           (Results_save fr fn h t' v' (Results_save fr fn h t v fs)) = Inr True"
    using assms(2) by (rule contains_after_save)
  have c3: "\<forall>d. Results_getitem fr fn h fs = Inr d \<longrightarrow>
            Results_getitem fr fn h (Results_save fr fn h t v fs) = Inr d"
    using getitem_save_hit by blast
  have c4: "(\<exists>d. Results_getitem fr fn h (Results_save fr fn h t v fs) = Inr d \<and>
                 map_of d = [''test_mrr'' \<mapsto> t, ''validation_mrr'' \<mapsto> v] ++ map_of h) \<and>
            (fst ` set h \<inter> {''test_mrr'', ''validation_mrr''} = {} \<longrightarrow>
               Results_getitem fr fn h (Results_save fr fn h t v fs) =
                 Inr ([(''test_mrr'', t), (''validation_mrr'', v)] @ h))"
    if fresh: "\<forall>d. Results_getitem fr fn h fs \<noteq> Inr d"
  proof -
    let ?r = "save_record fr h t v"
    have g: "Results_getitem fr fn h (Results_save fr fn h t v fs) =
               Inr (AList.delete ''hash'' ?r)"
      using assms(2,3) fresh by (rule getitem_save_fresh)
    have none: "map_of h ''hash'' = None"
      using assms(2) by (simp add: map_of_eq_None_iff)
    have "map_of ?r = map_of [(''test_mrr'', t), (''validation_mrr'', v),
                              (''hash'', JStr (Results_hash fr h))] ++ map_of h"
      unfolding save_record_def using assms(1) by (rule map_of_dict_update)
    then have m: "map_of (AList.delete ''hash'' ?r) =
                    [''test_mrr'' \<mapsto> t, ''validation_mrr'' \<mapsto> v] ++ map_of h"
      using none by (auto simp: delete_conv' fun_eq_iff map_add_def split: option.splits)
    have e: "AList.delete ''hash'' ?r = [(''test_mrr'', t), (''validation_mrr'', v)] @ h"
      if dis: "fst ` set h \<inter> {''test_mrr'', ''validation_mrr''} = {}"
    proof -
      have "fst ` set h \<inter> {''test_mrr'', ''validation_mrr'', ''hash''} = {}"
        using dis assms(2) by auto
      with assms(1) have "?r = [(''test_mrr'', t), (''validation_mrr'', v),
                               (''hash'', JStr (Results_hash fr h))] @ h"
        by (rule save_record_fresh)
      then show ?thesis by (simp add: delete_absent[OF assms(2)])
    qed
    show ?thesis using g m e by simp
  qed
  show ?thesis using c1 c2 c3 c4 by blast
qed

text \<open>
The example of the specification: \<^verbatim>\<open>save({"lr": 0.1}, 0.5, 0.4)\<close> on an empty store,
  saved once and saved twice.
\<close>

theorem save_then_lookup_witness:
  "hashed_store ''r.txt'' Map.empty \<and>
   Results_contains demo_repr ''r.txt'' [(''lr'', JFloat (Finite (1 / 10)))]
     (Results_save demo_repr ''r.txt'' [(''lr'', JFloat (Finite (1 / 10)))]
        (JFloat (Finite (1 / 2))) (JFloat (Finite (2 / 5))) Map.empty) = Inr True \<and>
   Results_contains demo_repr ''r.txt'' [(''lr'', JFloat (Finite (1 / 10)))]
     (Results_save demo_repr ''r.txt'' [(''lr'', JFloat (Finite (1 / 10)))]
        (JFloat (Finite (1 / 2))) (JFloat (Finite (2 / 5)))
        (Results_save demo_repr ''r.txt'' [(''lr'', JFloat (Finite (1 / 10)))]
           (JFloat (Finite (1 / 2))) (JFloat (Finite (2 / 5))) Map.empty)) = Inr True \<and>
   Results_getitem demo_repr ''r.txt'' [(''lr'', JFloat (Finite (1 / 10)))]
     (Results_save demo_repr ''r.txt'' [(''lr'', JFloat (Finite (1 / 10)))]
        (JFloat (Finite (1 / 2))) (JFloat (Finite (2 / 5))) Map.empty) =
     Inr [(''test_mrr'', JFloat (Finite (1 / 2))), (''validation_mrr'', JFloat (Finite (2 / 5))),
          (''lr'', JFloat (Finite (1 / 10)))]"
proof -
  let ?h = "[(''lr'', JFloat (Finite (1 / 10)))]"
  have d: "distinct (map fst ?h)" by simp
  have n: "''hash'' \<notin> fst ` set ?h" by simp
  have s: "hashed_store ''r.txt'' Map.empty" by (simp add: hashed_store_def)
  have f: "\<forall>d. Results_getitem demo_repr ''r.txt'' ?h Map.empty \<noteq> Inr d"
    by (simp add: Results_getitem_def read_lines_def)
  have k: "fst ` set ?h \<inter> {''test_mrr'', ''validation_mrr''} = {}" by simp
  show ?thesis
    using save_then_lookup [OF d n s, of demo_repr "JFloat (Finite (1 / 2))"
        "JFloat (Finite (2 / 5))" "JFloat (Finite (1 / 2))" "JFloat (Finite (2 / 5))"] s f k
    by simp
qed

lemmas store_defs = Results_getitem_def Results_save_def append_line_def read_lines_def
  save_record_def dict_update_def setitem_def getitem_def delitem_def Results_contains_def

lemma hash_not_short: "Results_hash fr h \<noteq> ''x''"
proof
  assume "Results_hash fr h = ''x''"
  then have "length (Results_hash fr h) = 1" by simp
  then show False using md5_hexdigest_shape[of "encode_utf8 (dumps fr True (JObj h))"]
    by (simp add: Results_hash_def)
qed

text \<open>
Claim C3 as stated fails. With \<open>h\<close> = \<^verbatim>\<open>{"test_mrr": 7}\<close> the lookup after
  \<^verbatim>\<open>save(h, 0.5, 0.4)\<close> returns \<^verbatim>\<open>test_mrr = 7\<close>. When the store already holds a line for
  \<^verbatim>\<open>{"lr": 0.1}\<close> with scores 0.1 and 0.1, the lookup after \<^verbatim>\<open>save({"lr": 0.1}, 0.5, 0.4)\<close>
  returns the earlier scores. With \<open>h\<close> = \<^verbatim>\<open>{"hash": "x"}\<close> the membership test after the
  save is false, and so it is for \<^verbatim>\<open>{"lr": 0.1}\<close> when the store begins with a line that
  has no \<^verbatim>\<open>hash\<close> field.
\<close>

theorem save_then_lookup_counterexample:
  "Results_getitem demo_repr ''r.txt'' [(''test_mrr'', JInt 7)]
     (Results_save demo_repr ''r.txt'' [(''test_mrr'', JInt 7)]
        (JFloat (Finite (1 / 2))) (JFloat (Finite (2 / 5))) Map.empty) =
     Inr [(''test_mrr'', JInt 7), (''validation_mrr'', JFloat (Finite (2 / 5)))] \<and>
   Results_getitem demo_repr ''r.txt'' [(''lr'', JFloat (Finite (1 / 10)))]
     (Results_save demo_repr ''r.txt'' [(''lr'', JFloat (Finite (1 / 10)))]
        (JFloat (Finite (1 / 2))) (JFloat (Finite (2 / 5)))
        (Results_save demo_repr ''r.txt'' [(''lr'', JFloat (Finite (1 / 10)))]
           (JFloat (Finite (1 / 10))) (JFloat (Finite (1 / 10))) Map.empty)) =
     Inr [(''test_mrr'', JFloat (Finite (1 / 10))), (''validation_mrr'', JFloat (Finite (1 / 10))),
          (''lr'', JFloat (Finite (1 / 10)))] \<and>
   Results_contains demo_repr ''r.txt'' [(''hash'', JStr ''x'')]
     (Results_save demo_repr ''r.txt'' [(''hash'', JStr ''x'')]
        (JFloat (Finite (1 / 2))) (JFloat (Finite (2 / 5))) Map.empty) = Inr False \<and>
   Results_contains demo_repr ''r.txt'' [(''lr'', JFloat (Finite (1 / 10)))]
     (Results_save demo_repr ''r.txt'' [(''lr'', JFloat (Finite (1 / 10)))]
        (JFloat (Finite (1 / 2))) (JFloat (Finite (2 / 5)))
        [''r.txt'' \<mapsto> [[(''lr'', JFloat (Finite (1 / 10)))]]]) = Inr False"
  using hash_not_short[of demo_repr "[(''hash'', JStr ''x'')]"]
  by (simp add: store_defs)

section \<open>Best result\<close>

lemma map_err_total:
  "\<forall>x\<in>set xs. f x = Inr (g x) \<Longrightarrow> map_err f xs = Inr (map g xs)"
  by (induction xs) auto

lemma map_err_map: "map_err f (map g ys) = map_err (\<lambda>d. f (g d)) ys"
  by (induction ys) (auto split: sum.splits)

lemma hd_insort_key:
  "hd (insort_key f x ys) = (if ys = [] \<or> f x \<le> f (hd ys) then x else hd ys)"
  by (cases ys) auto

lemma sort_key_Nil_iff: "sort_key f xs = [] \<longleftrightarrow> xs = []"
  by (metis length_sort list.size(3) length_0_conv)

lemma hd_sort_key_first_min:
  "ps \<noteq> [] \<Longrightarrow>
     \<exists>i<length ps. hd (sort_key f ps) = ps ! i \<and> (\<forall>j<length ps. f (ps ! i) \<le> f (ps ! j))
        \<and> (\<forall>j<i. f (ps ! i) < f (ps ! j))"
proof (induction ps)
  case Nil
  then show ?case by simp
next
  case (Cons p ps)
  show ?case
  proof (cases "ps = []")
    case True
    then show ?thesis by simp
  next
    case False
    with Cons.IH obtain i where i: "i < length ps" "hd (sort_key f ps) = ps ! i"
      "\<forall>j<length ps. f (ps ! i) \<le> f (ps ! j)" "\<forall>j<i. f (ps ! i) < f (ps ! j)"
      by blast
    have ne: "sort_key f ps \<noteq> []" using False by (simp add: sort_key_Nil_iff)
    have hd: "hd (sort_key f (p # ps)) = (if f p \<le> f (ps ! i) then p else ps ! i)"
      using ne i(2) by (simp add: hd_insort_key)
    show ?thesis
    proof (cases "f p \<le> f (ps ! i)")
      case True
      have "\<forall>j<length (p # ps). f ((p # ps) ! 0) \<le> f ((p # ps) ! j)"
      proof (intro allI impI)
        fix j assume "j < length (p # ps)"
        then show "f ((p # ps) ! 0) \<le> f ((p # ps) ! j)"
          using True i(3) by (cases j) (auto intro: order_trans)
      qed
      then show ?thesis using hd True by (intro exI[of _ 0]) simp
    next
      case False
      have a: "\<forall>j<length (p # ps). f ((p # ps) ! Suc i) \<le> f ((p # ps) ! j)"
      proof (intro allI impI)
        fix j assume "j < length (p # ps)"
        then show "f ((p # ps) ! Suc i) \<le> f ((p # ps) ! j)"
          using False i(3) by (cases j) auto
      qed
      have b: "\<forall>j<Suc i. f ((p # ps) ! Suc i) < f ((p # ps) ! j)"
      proof (intro allI impI)
        fix j assume "j < Suc i"
        then show "f ((p # ps) ! Suc i) < f ((p # ps) ! j)"
          using False i(4) by (cases j) auto
      qed
      show ?thesis using hd False a b i(1) by (intro exI[of _ "Suc i"]) simp
    qed
  qed
qed

lemma float_neg_NaN: "float_neg f = NaN \<longleftrightarrow> f = NaN"
  by (cases f) auto

lemma rank_float_neg:
  "a \<noteq> NaN \<Longrightarrow> b \<noteq> NaN \<Longrightarrow>
     (rank (float_neg a) \<le> rank (float_neg b) \<longleftrightarrow> rank b \<le> rank a) \<and>
     (rank (float_neg a) < rank (float_neg b) \<longleftrightarrow> rank b < rank a)"
  by (cases a; cases b) (auto simp: less_eq_prod_def less_prod_def)

lemma neg_test_mrr_score:
  "score d = Some s \<Longrightarrow> neg_test_mrr (AList.delete ''hash'' d) = Inr (float_neg s)"
proof -
  assume s: "score d = Some s"
  then obtain v where v: "map_of d ''test_mrr'' = Some v" "num_val v = Some s"
    by (auto simp: score_def split: option.splits)
  have "map_of (AList.delete ''hash'' d) ''test_mrr'' = Some v"
    using v(1) by (simp add: delete_conv')
  moreover have "py_neg v = Inr (float_neg s)" using v(2) by (cases v) auto
  ultimately show ?thesis by (simp add: neg_test_mrr_def getitem_def)
qed

text \<open>
Claim C4, amended. On a store of trial records none of whose \<^verbatim>\<open>test_mrr\<close> is NaN,
  \<^verbatim>\<open>best()\<close> returns \<^verbatim>\<open>None\<close> when the store is empty, and otherwise the record (without
  its \<^verbatim>\<open>hash\<close>) at the first position whose \<^verbatim>\<open>test_mrr\<close> is maximal: no record has a
  greater score and every earlier record has a smaller one.
\<close>

theorem best_is_first_maximum:
  assumes "fs fn = Some ls" and "\<forall>d\<in>set ls. trial_record d \<and> score d \<noteq> Some NaN"
  shows "(ls = [] \<longrightarrow> Results_best srt fn fs = Inr None) \<and>
         (ls \<noteq> [] \<longrightarrow>
            (\<exists>i<length ls.
               Results_best srt fn fs = Inr (Some (AList.delete ''hash'' (ls ! i))) \<and>
               (\<forall>j<length ls. rank (the (score (ls ! j))) \<le> rank (the (score (ls ! i)))) \<and>
               (\<forall>j<i. rank (the (score (ls ! j))) < rank (the (score (ls ! i))))))"
proof -
  let ?xs = "map (AList.delete ''hash'') ls"
  let ?ks = "map (\<lambda>d. float_neg (the (score d))) ls"
  have sc: "d \<in> set ls \<Longrightarrow> \<exists>s. score d = Some s \<and> s \<noteq> NaN" for d
    using assms(2) by (auto simp: trial_record_def)
  have iter: "Results_iter fn fs = Inr ?xs"
    using assms by (auto simp: Results_iter_def read_lines_def trial_record_def delitem_def
        intro!: map_err_total)
  have keys: "map_err neg_test_mrr ?xs = Inr ?ks"
  proof -
    have "map_err (\<lambda>d. neg_test_mrr (AList.delete ''hash'' d)) ls = Inr ?ks"
    proof (intro map_err_total ballI)
      fix d assume "d \<in> set ls"
      then obtain s where "score d = Some s" using sc by blast
      then show "neg_test_mrr (AList.delete ''hash'' d) = Inr (float_neg (the (score d)))"
        by (simp add: neg_test_mrr_score)
    qed
    then show ?thesis by (simp add: map_err_map)
  qed
  have nonan: "NaN \<notin> set ?ks"
  proof
    assume "NaN \<in> set ?ks"
    then obtain d where d: "d \<in> set ls" "float_neg (the (score d)) = NaN" by auto
    then have "the (score d) = NaN" by (simp add: float_neg_NaN)
    then show False using sc[OF d(1)] by auto
  qed
  let ?ps = "zip ?ks ?xs"
  let ?f = "\<lambda>p :: pyfloat \<times> dict. rank (fst p)"
  have best: "Results_best srt fn fs =
      Inr (case map snd (sort_key ?f ?ps) of [] \<Rightarrow> None | r # _ \<Rightarrow> Some r)"
    using nonan by (simp add: Results_best_def iter py_sorted_def keys)
  show ?thesis
  proof (intro conjI impI)
    assume "ls = []"
    then show "Results_best srt fn fs = Inr None" using best by simp
  next
    assume ne: "ls \<noteq> []"
    then have pne: "?ps \<noteq> []" by (cases ls) auto
    from hd_sort_key_first_min[OF pne, of ?f] obtain i where i: "i < length ?ps"
      "hd (sort_key ?f ?ps) = ?ps ! i" "\<forall>j<length ?ps. ?f (?ps ! i) \<le> ?f (?ps ! j)"
      "\<forall>j<i. ?f (?ps ! i) < ?f (?ps ! j)" by blast
    have len: "length ?ps = length ls" by simp
    have nth: "?ps ! j = (float_neg (the (score (ls ! j))), AList.delete ''hash'' (ls ! j))"
      if "j < length ls" for j using that by simp
    have nn: "the (score (ls ! j)) \<noteq> NaN" if "j < length ls" for j
      using sc[of "ls ! j"] that by auto
    have il: "i < length ls" using i(1) len by simp
    have sne: "sort_key ?f ?ps \<noteq> []" using pne by (simp add: sort_key_Nil_iff)
    then have "(case map snd (sort_key ?f ?ps) of [] \<Rightarrow> None | r # _ \<Rightarrow> Some r)
                 = Some (snd (hd (sort_key ?f ?ps)))"
      by (cases "sort_key ?f ?ps") auto
    then have r: "Results_best srt fn fs = Inr (Some (AList.delete ''hash'' (ls ! i)))"
      using best i(2) nth[OF il] by simp
    have m: "\<forall>j<length ls. rank (the (score (ls ! j))) \<le> rank (the (score (ls ! i)))"
    proof (intro allI impI)
      fix j assume j: "j < length ls"
      then have "?f (?ps ! i) \<le> ?f (?ps ! j)" using i(3) len by simp
      then have "rank (float_neg (the (score (ls ! i)))) \<le> rank (float_neg (the (score (ls ! j))))"
        using nth[OF il] nth[OF j] by simp
      then show "rank (the (score (ls ! j))) \<le> rank (the (score (ls ! i)))"
        using rank_float_neg[OF nn[OF il] nn[OF j]] by simp
    qed
    have f: "\<forall>j<i. rank (the (score (ls ! j))) < rank (the (score (ls ! i)))"
    proof (intro allI impI)
      fix j assume ji: "j < i"
      then have j: "j < length ls" using il by simp
      have "?f (?ps ! i) < ?f (?ps ! j)" using i(4) ji by blast
      then have "rank (float_neg (the (score (ls ! i)))) < rank (float_neg (the (score (ls ! j))))"
        using nth[OF il] nth[OF j] by simp
      then show "rank (the (score (ls ! j))) < rank (the (score (ls ! i)))"
        using rank_float_neg[OF nn[OF il] nn[OF j]] by simp
    qed
    show "\<exists>i<length ls.
            Results_best srt fn fs = Inr (Some (AList.delete ''hash'' (ls ! i))) \<and>
            (\<forall>j<length ls. rank (the (score (ls ! j))) \<le> rank (the (score (ls ! i)))) \<and>
            (\<forall>j<i. rank (the (score (ls ! j))) < rank (the (score (ls ! i))))"
      using r m f il by (intro exI[of _ i]) simp
  qed
qed

section \<open>Runs of the driver\<close>

lemma best_fresh_store:
  "fs fn = None \<Longrightarrow> Results_best srt fn (Results_init fn fs) = Inr None"
  by (simp add: Results_best_def Results_init_def Results_iter_def read_lines_def py_sorted_def)

lemma dispatch_unknown:
  "model_type \<notin> {''cnn'', ''lstm'', ''pooling''} \<Longrightarrow> dispatch model_type = Inl ValueError"
  by (simp add: dispatch_def)

text \<open>
Claim C8. For a model type other than \<^verbatim>\<open>cnn\<close>, \<^verbatim>\<open>lstm\<close> and \<^verbatim>\<open>pooling\<close>, \<^verbatim>\<open>run\<close> fails
  before the sampler or an evaluator is called: the trace and the generator state are
  unchanged. The exception is \<^verbatim>\<open>ValueError\<close>, unless reading the store for the best
  result has already raised; with no store file for that model type it is
  \<^verbatim>\<open>ValueError\<close>.
\<close>

theorem run_unknown_model_type:
  assumes "model_type \<notin> {''cnn'', ''lstm'', ''pooling''}"
  shows "fst (run L train test validation rs model_type tb w) =
           (case Results_best (list_sort L) (model_type @ ''_results.txt'')
                   (Results_init (model_type @ ''_results.txt'') (files w)) of
              Inl e \<Rightarrow> Inl e
            | Inr _ \<Rightarrow> Inl ValueError) \<and>
         (files w (model_type @ ''_results.txt'') = None \<longrightarrow>
            fst (run L train test validation rs model_type tb w) = Inl ValueError) \<and>
         trace (snd (run L train test validation rs model_type tb w)) = trace w \<and>
         random_state (snd (run L train test validation rs model_type tb w)) = random_state w"
  using dispatch_unknown[OF assms]
  by (auto simp: run_def Let_def best_fresh_store split: sum.splits)

text \<open>
Model type \<^verbatim>\<open>gru\<close>, no store file.
\<close>

theorem run_unknown_model_type_witness:
  "''gru'' \<notin> {''cnn'', ''lstm'', ''pooling''} \<and>
   fst (run (demo_ext []) () () () (42::nat) ''gru'' None demo_world) = Inl ValueError \<and>
   trace (snd (run (demo_ext []) () () () (42::nat) ''gru'' None demo_world)) = []"
proof -
  have h: "''gru'' \<notin> {''cnn'', ''lstm'', ''pooling''}" by simp
  have f: "files demo_world (''gru'' @ ''_results.txt'') = None" by (simp add: demo_world_def)
  have t: "trace demo_world = []" by (simp add: demo_world_def)
  show ?thesis
    using run_unknown_model_type [OF h, of "demo_ext []" "()" "()" "()" "42::nat" None demo_world]
      h f t by metis
qed

text \<open>
Claim C9. \<^verbatim>\<open>run\<close> does not depend on its argument \<^verbatim>\<open>ranomd_state\<close>; and when the
  global \<^verbatim>\<open>random_state\<close> is unbound, a call with a known model type and a readable
  store raises \<^verbatim>\<open>NameError\<close>.
\<close>

theorem run_ignores_ranomd_state:
  "run L train test validation r1 model_type tb w =
     run L train test validation r2 model_type tb w \<and>
   (random_state w = None \<longrightarrow> model_type \<in> {''cnn'', ''lstm'', ''pooling''} \<longrightarrow>
    (\<exists>b. Results_best (list_sort L) (model_type @ ''_results.txt'')
            (Results_init (model_type @ ''_results.txt'') (files w)) = Inr b) \<longrightarrow>
      fst (run L train test validation r1 model_type tb w) = Inl NameError)"
  by (auto simp: run_def Let_def dispatch_def emit_def split: sum.splits)

text \<open>
Two different arguments and no global: both calls end in the same \<^verbatim>\<open>NameError\<close>.
\<close>

theorem run_ignores_ranomd_state_witness:
  "run (demo_ext []) () () () (1::nat) ''lstm'' None (demo_world\<lparr>random_state := None\<rparr>) =
     run (demo_ext []) () () () ''seed'' ''lstm'' None (demo_world\<lparr>random_state := None\<rparr>) \<and>
   fst (run (demo_ext []) () () () (1::nat) ''lstm'' None (demo_world\<lparr>random_state := None\<rparr>))
     = Inl NameError"
proof -
  let ?w = "demo_world\<lparr>random_state := None\<rparr>"
  have g: "random_state ?w = None" by simp
  have m: "''lstm'' \<in> {''cnn'', ''lstm'', ''pooling''}" by simp
  have "files ?w (''lstm'' @ ''_results.txt'') = None" by (simp add: demo_world_def)
  then have b: "\<exists>b. Results_best (list_sort (demo_ext [])) (''lstm'' @ ''_results.txt'')
                     (Results_init (''lstm'' @ ''_results.txt'') (files ?w)) = Inr b"
    using best_fresh_store by blast
  show ?thesis
    using run_ignores_ranomd_state [of "demo_ext []" "()" "()" "()" "1::nat" "''lstm''" None
        ?w "''seed''"] g m b by blast
qed

lemmas driver_defs = run_def Let_def dispatch_def emit_def loop_body_def demo_ext_def demo_world_def
  Results_init_def Results_best_def Results_iter_def read_lines_def py_sorted_def
  Results_contains_def Results_getitem_def sample_lstm_hyperparameters_def
  os_path_join_def NUM_SAMPLES_def lstm_set_def

text \<open>
Claim C7 fails on the code. With \<^verbatim>\<open>tb_log_dir\<close> left at \<^verbatim>\<open>None\<close>, an empty store and one
  sampled set, \<^verbatim>\<open>run\<close> raises \<^verbatim>\<open>TypeError\<close> at \<^verbatim>\<open>os.path.join\<close> for the first candidate:
  nothing is evaluated and nothing is saved.
\<close>

theorem run_default_tb_log_dir_fails:
  "run (demo_ext [lstm_set]) () () () (42::nat) ''lstm'' None demo_world =
     (Inl TypeError,
      \<lparr>files = [''lstm_results.txt'' \<mapsto> []], random_state = Some 43,
       trace = [Sampler_called 100, Print_evaluating lstm_set]\<rparr>)"
  by (simp add: driver_defs)

section \<open>Samplers\<close>

lemma gen_map_member:
  "y \<in> set (fst (gen_map f xs)) \<Longrightarrow> \<exists>x\<in>set xs. f x = Inr y"
  by (induction xs) (auto split: sum.splits)

lemma add_dilation_int:
  assumes "getitem p ''num_layers'' = Inr (JInt n)"
    and "getitem p ''dilation_multiplier'' = Inr (JInt m)"
  shows "add_dilation fp p =
           Inr (setitem p ''dilation'' (JList (map (\<lambda>i. JInt (m ^ (i mod 8))) [0..<nat n])))"
proof -
  have "map_err (\<lambda>i. case getitem p ''dilation_multiplier'' of
                         Inl e \<Rightarrow> Inl e | Inr dm \<Rightarrow> py_pow fp dm (i mod 8)) [0..<nat n]
          = Inr (map (\<lambda>i. JInt (m ^ (i mod 8))) [0..<nat n])"
    by (intro map_err_total) (simp add: assms(2))
  then show ?thesis by (simp add: add_dilation_def assms(1))
qed

lemma getitem_setitem:
  "getitem (setitem p k v) k' = (if k' = k then Inr v else getitem p k')"
  by (simp add: getitem_def setitem_def update_conv')

lemma add_dilation_shape:
  "add_dilation fp p = Inr h \<Longrightarrow> \<exists>ds. h = setitem p ''dilation'' ds"
  by (auto simp: add_dilation_def split: sum.splits)

text \<open>
Claim C6. In every set the CNN sampler yields, \<^verbatim>\<open>dilation\<close> is the list of length
  \<^verbatim>\<open>num_layers\<close> whose \<open>i\<close>-th element is \<^verbatim>\<open>dilation_multiplier\<close> to the power \<open>i mod 8\<close>.
\<close>

theorem cnn_dilation:
  assumes "h \<in> set (fst (fst (sample_cnn_hyperparameters L g num)))"
    and "getitem h ''num_layers'' = Inr (JInt n)"
    and "getitem h ''dilation_multiplier'' = Inr (JInt m)"
  shows "getitem h ''dilation'' = Inr (JList (map (\<lambda>i. JInt (m ^ (i mod 8))) [0..<nat n]))"
proof -
  from assms(1) obtain p where p: "add_dilation (float_pow L) p = Inr h"
    by (auto simp: sample_cnn_hyperparameters_def split: prod.splits dest: gen_map_member)
  then obtain ds where ds: "h = setitem p ''dilation'' ds"
    using add_dilation_shape by blast
  have "getitem p ''num_layers'' = Inr (JInt n)"
    using assms(2) unfolding ds by (simp add: getitem_setitem)
  moreover have "getitem p ''dilation_multiplier'' = Inr (JInt m)"
    using assms(3) unfolding ds by (simp add: getitem_setitem)
  ultimately have "h = setitem p ''dilation''
      (JList (map (\<lambda>i. JInt (m ^ (i mod 8))) [0..<nat n]))"
    using p add_dilation_int by fastforce
  then show ?thesis by (simp add: getitem_setitem)
qed

lemma dilation_example:
  "add_dilation fp [(''dilation_multiplier'', JInt 2), (''num_layers'', JInt 10)] =
     Inr [(''dilation_multiplier'', JInt 2), (''num_layers'', JInt 10),
          (''dilation'', JList [JInt 1, JInt 2, JInt 4, JInt 8, JInt 16, JInt 32, JInt 64,
                               JInt 128, JInt 1, JInt 2])]"
  by code_simp

section \<open>Written records and derived fields\<close>



text \<open>
For \<^verbatim>\<open>dilation_multiplier = 2\<close> and \<^verbatim>\<open>num_layers = 10\<close> the list is
  1, 2, 4, 8, 16, 32, 64, 128, 1, 2.
\<close>

theorem cnn_dilation_witness:
  "[(''dilation_multiplier'', JInt 2), (''num_layers'', JInt 10),
    (''dilation'', JList [JInt 1, JInt 2, JInt 4, JInt 8, JInt 16, JInt 32, JInt 64,
                         JInt 128, JInt 1, JInt 2])]
     \<in> set (fst (fst (sample_cnn_hyperparameters
                 (demo_ext [[(''dilation_multiplier'', JInt 2), (''num_layers'', JInt 10)]])
                 0 1))) \<and>
   getitem [(''dilation_multiplier'', JInt 2), (''num_layers'', JInt 10),
    (''dilation'', JList [JInt 1, JInt 2, JInt 4, JInt 8, JInt 16, JInt 32, JInt 64,
                         JInt 128, JInt 1, JInt 2])] ''dilation'' =
     Inr (JList (map (\<lambda>i. JInt (2 ^ (i mod 8))) [0..<nat 10]))"
proof -
  let ?h = "[(''dilation_multiplier'', JInt 2), (''num_layers'', JInt 10),
    (''dilation'', JList [JInt 1, JInt 2, JInt 4, JInt 8, JInt 16, JInt 32, JInt 64,
                         JInt 128, JInt 1, JInt 2])]"
  let ?L = "demo_ext [[(''dilation_multiplier'', JInt 2), (''num_layers'', JInt 10)]]"
  have mem: "?h \<in> set (fst (fst (sample_cnn_hyperparameters ?L 0 1)))"
    by (simp add: sample_cnn_hyperparameters_def demo_ext_def dilation_example)
  have n: "getitem ?h ''num_layers'' = Inr (JInt 10)" by (simp add: getitem_def)
  have m: "getitem ?h ''dilation_multiplier'' = Inr (JInt 2)" by (simp add: getitem_def)
  show ?thesis using cnn_dilation [OF mem n m] mem by blast
qed

section \<open>Worked runs\<close>

lemma lstm_first_pass:
  "fst (run_loop (demo_ext [lstm_set]) Lstm () () () ''lstm'' (Some ''logs'') ''lstm_results.txt''
          [(0, lstm_set)] (demo_world\<lparr>files := [''lstm_results.txt'' \<mapsto> []]\<rparr>)) = Inr ()"
  by (simp add: loop_body_def demo_ext_def demo_world_def Results_contains_def
      Results_getitem_def read_lines_def os_path_join_def evaluate_lstm_model_def
      model_kwargs_def lstm_set_def getitem_def emit_def Let_def)

text \<open>
The hypotheses of C1 hold for one LSTM candidate on an empty store: the first pass
  evaluates and saves it, the second pass leaves the state as it is.
\<close>

theorem known_candidates_skipped_witness:
  "hashed_store ''lstm_results.txt''
     (files (demo_world\<lparr>files := [''lstm_results.txt'' \<mapsto> []]\<rparr>)) \<and>
   ''hash'' \<notin> fst ` set lstm_set \<and>
   fst (run_loop (demo_ext [lstm_set]) Lstm () () () ''lstm'' (Some ''logs'') ''lstm_results.txt''
          [(0, lstm_set)] (demo_world\<lparr>files := [''lstm_results.txt'' \<mapsto> []]\<rparr>)) = Inr () \<and>
   run_loop (demo_ext [lstm_set]) Lstm () () () ''lstm'' (Some ''logs'') ''lstm_results.txt''
     [(0, lstm_set)]
     (snd (run_loop (demo_ext [lstm_set]) Lstm () () () ''lstm'' (Some ''logs'')
             ''lstm_results.txt'' [(0, lstm_set)]
             (demo_world\<lparr>files := [''lstm_results.txt'' \<mapsto> []]\<rparr>))) =
     (Inr (),
      snd (run_loop (demo_ext [lstm_set]) Lstm () () () ''lstm'' (Some ''logs'')
             ''lstm_results.txt'' [(0, lstm_set)]
             (demo_world\<lparr>files := [''lstm_results.txt'' \<mapsto> []]\<rparr>)))"
proof -
  let ?w = "demo_world\<lparr>files := [''lstm_results.txt'' \<mapsto> []]\<rparr>"
  let ?run = "run_loop (demo_ext [lstm_set]) Lstm () () () ''lstm'' (Some ''logs'')
                ''lstm_results.txt'' [(0, lstm_set)]"
  have a: "hashed_store ''lstm_results.txt'' (files ?w)"
    by (simp add: hashed_store_def)
  have b: "\<forall>item\<in>set [(0::nat, lstm_set)]. ''hash'' \<notin> fst ` set (snd item)"
    by (simp add: lstm_set_def)
  have b': "''hash'' \<notin> fst ` set lstm_set"
    by (simp add: lstm_set_def)
  have c: "fst (?run ?w) = Inr ()" by (rule lstm_first_pass)
  then have c': "?run ?w = (Inr (), snd (?run ?w))" by (metis prod.collapse)
  show ?thesis
    using known_candidates_skipped [of "demo_ext [lstm_set]" "''lstm_results.txt''" lstm_set ?w
        Lstm "()" "()" "()" "''lstm''" "Some ''logs''" 0 "[(0, lstm_set)]" "snd (?run ?w)"]
      a b b' c c' by blast
qed

text \<open>
Scores 0.3, 0.9, 0.9, 0.5: \<^verbatim>\<open>best()\<close> returns the first record with 0.9.
\<close>

theorem best_is_first_maximum_witness:
  "list_all (\<lambda>d. trial_record d \<and> score d \<noteq> Some NaN) demo_records \<and>
   Results_best (\<lambda>ps. ps) ''r.txt'' [''r.txt'' \<mapsto> demo_records] =
     Inr (Some (AList.delete ''hash'' (demo_records ! 1))) \<and>
   Results_best (\<lambda>ps. ps) ''r.txt'' [''r.txt'' \<mapsto> demo_records] =
     Inr (Some [(''n_iter'', JInt 6), (''test_mrr'', JFloat (Finite (9 / 10)))])"
proof -
  let ?fs = "[''r.txt'' \<mapsto> demo_records]"
  let ?srt = "\<lambda>ps :: (pyfloat \<times> dict) list. ps"
  have a: "?fs ''r.txt'' = Some demo_records" by simp
  have b: "\<forall>d\<in>set demo_records. trial_record d \<and> score d \<noteq> Some NaN"
    by (simp add: demo_records_def trial_record_def score_def del: not_None_eq)
  have n: "demo_records \<noteq> []" by (simp add: demo_records_def)
  have e: "Results_best ?srt ''r.txt'' ?fs =
             Inr (Some [(''n_iter'', JInt 6), (''test_mrr'', JFloat (Finite (9 / 10)))])"
    by (simp add: demo_records_def Results_best_def Results_iter_def read_lines_def
        delitem_def py_sorted_def neg_test_mrr_def getitem_def less_eq_prod_def)
  have f: "AList.delete ''hash'' (demo_records ! 1) =
             [(''n_iter'', JInt 6), (''test_mrr'', JFloat (Finite (9 / 10)))]"
    by (simp add: demo_records_def)
  from best_is_first_maximum [of ?fs "''r.txt''" demo_records ?srt, OF a b] n have
    "\<exists>i<length demo_records.
       Results_best ?srt ''r.txt'' ?fs = Inr (Some (AList.delete ''hash'' (demo_records ! i)))"
    by blast
  then show ?thesis using b e f by (simp add: list_all_iff)
qed

text \<open>
Claim C4 as stated fails. On the scores 0.3, NaN, 0.9 the keys -0.3, NaN, -0.9 are one
  ascending run (no key is less than the one before it), the sort moves nothing, and
  \<^verbatim>\<open>best()\<close> returns the record with 0.3 although the third record has 0.9.
\<close>

theorem best_nan_counterexample:
  "Results_best (\<lambda>ps. ps) ''r.txt'' [''r.txt'' \<mapsto> nan_records] =
     Inr (Some [(''n_iter'', JInt 5), (''test_mrr'', JFloat (Finite (3 / 10)))]) \<and>
   Results_best rev ''r.txt'' [''r.txt'' \<mapsto> nan_records] =
     Inr (Some [(''n_iter'', JInt 5), (''test_mrr'', JFloat (Finite (3 / 10)))]) \<and>
   score (nan_records ! 2) = Some (Finite (9 / 10)) \<and>
   py_lt (Finite (3 / 10)) (Finite (9 / 10))"
  by (simp add: nan_records_def Results_best_def Results_iter_def read_lines_def
      delitem_def py_sorted_def neg_test_mrr_def getitem_def score_def py_lt_def
      less_prod_def)

section \<open>Digests of serialised sets\<close>

lemma dumps_a1: "dumps fr True (JObj [(''a'', JInt 1)]) = ''{\"a\": 1}''"
  by code_simp

lemma dumps_a2: "dumps fr True (JObj [(''a'', JInt 2)]) = ''{\"a\": 2}''"
  by code_simp

lemma dumps_ab: "dumps fr True (JObj [(''b'', JInt 2), (''a'', JInt 1)]) = ''{\"a\": 1, \"b\": 2}''"
  by code_simp

lemma le_bytes_numeral:
  "le_bytes (numeral k) x = (x mod 256) # le_bytes (pred_numeral k) (x div 256)"
  by (metis numeral_eq_Suc le_bytes.simps(2))

lemma replicate_numeral_unfold:
  "replicate (numeral k) x = x # replicate (pred_numeral k) x"
  by (metis numeral_eq_Suc replicate_Suc)

lemma upt_0_64:
  "[0..<64] = [0..<16] @ [16..<32] @ [32..<48] @ [48..<64 :: nat]"
  by code_simp

lemma upt_0_16:
  "[0..<16] = [0, 1, 2, 3, 4, 5, 6, 7, 8, 9, 10, 11, 12, 13, 14, 15 :: nat]"
  by code_simp

lemma upt_16_32:
  "[16..<32] = [16, 17, 18, 19, 20, 21, 22, 23, 24, 25, 26, 27, 28, 29, 30, 31 :: nat]"
  by code_simp

lemma upt_32_48:
  "[32..<48] = [32, 33, 34, 35, 36, 37, 38, 39, 40, 41, 42, 43, 44, 45, 46, 47 :: nat]"
  by code_simp

lemma upt_48_64:
  "[48..<64] = [48, 49, 50, 51, 52, 53, 54, 55, 56, 57, 58, 59, 60, 61, 62, 63 :: nat]"
  by code_simp

lemmas md5_eval = md5_hexdigest_def md5_pad_def md5_block_def md5_F_def md5_g_def md5_K_def
  md5_s_def leftrotate_def hex_byte_def hex_digit_def encode_utf8_def md5_init_def
  le_bytes_numeral replicate_numeral_unfold upt_0_64
  upt_0_16 upt_16_32 upt_32_48 upt_48_64

lemma md5_a1:
  "md5_hexdigest (encode_utf8 ''{\"a\": 1}'') = ''42b7b4f2921788ea14dac5566e6f06d0''"
  by (simp add: md5_eval)

lemma md5_a2:
  "md5_hexdigest (encode_utf8 ''{\"a\": 2}'') = ''9f8a8e5ba8c70c774d410a9107e2a32b''"
  by (simp add: md5_eval)

text \<open>
Claim C2. Two hyperparameter mappings with the same content have the same
  fingerprint, whatever the order of their keys; the fingerprint is a string of 32
  hexadecimal digits; \<^verbatim>\<open>{"a": 1, "b": 2}\<close> and \<^verbatim>\<open>{"b": 2, "a": 1}\<close> have the same
  fingerprint, and \<^verbatim>\<open>{"a": 1}\<close> and \<^verbatim>\<open>{"a": 2}\<close> have different ones.
\<close>

theorem fingerprint_order_independent:
  "(distinct (map fst x) \<longrightarrow> distinct (map fst y) \<longrightarrow> map_of x = map_of y \<longrightarrow>
      Results_hash fr x = Results_hash fr y) \<and>
   length (Results_hash fr x) = 32 \<and>
   set (Results_hash fr x) \<subseteq> set ''0123456789abcdef'' \<and>
   Results_hash fr [(''a'', JInt 1), (''b'', JInt 2)] =
     Results_hash fr [(''b'', JInt 2), (''a'', JInt 1)] \<and>
   Results_hash fr [(''a'', JInt 1)] = ''42b7b4f2921788ea14dac5566e6f06d0'' \<and>
   Results_hash fr [(''a'', JInt 2)] = ''9f8a8e5ba8c70c774d410a9107e2a32b'' \<and>
   Results_hash fr [(''a'', JInt 1)] \<noteq> Results_hash fr [(''a'', JInt 2)]"
proof -
  have ab: "Results_hash fr [(''a'', JInt 1), (''b'', JInt 2)] =
              Results_hash fr [(''b'', JInt 2), (''a'', JInt 1)]"
    by (rule hash_order_independent) (auto simp: fun_eq_iff)
  have a1: "Results_hash fr [(''a'', JInt 1)] = ''42b7b4f2921788ea14dac5566e6f06d0''"
    unfolding Results_hash_def dumps_a1 by (rule md5_a1)
  have a2: "Results_hash fr [(''a'', JInt 2)] = ''9f8a8e5ba8c70c774d410a9107e2a32b''"
    unfolding Results_hash_def dumps_a2 by (rule md5_a2)
  have ne: "Results_hash fr [(''a'', JInt 1)] \<noteq> Results_hash fr [(''a'', JInt 2)]"
    unfolding a1 a2 by simp
  show ?thesis
    using hash_order_independent[of x y fr] md5_hexdigest_shape ab a1 a2 ne
    unfolding Results_hash_def by blast
qed

text \<open>
Two orders of the same mapping.
\<close>

theorem fingerprint_order_independent_witness:
  "Results_hash demo_repr [(''lr'', JFloat (Finite (1 / 10))), (''n_iter'', JInt 5)] =
     Results_hash demo_repr [(''n_iter'', JInt 5), (''lr'', JFloat (Finite (1 / 10)))]"
proof -
  let ?x = "[(''lr'', JFloat (Finite (1 / 10))), (''n_iter'', JInt 5)]"
  let ?y = "[(''n_iter'', JInt 5), (''lr'', JFloat (Finite (1 / 10)))]"
  have dx: "distinct (map fst ?x)" and dy: "distinct (map fst ?y)" by simp_all
  have m: "map_of ?x = map_of ?y" by (auto simp: fun_eq_iff)
  show ?thesis
    using fingerprint_order_independent [of ?x ?y demo_repr] dx dy m by blast
qed

end
